theory Spec2Isabelle
  imports Complex_Main "HOL-Library.Sublist"
begin

section \<open>Bayesian optimisation loop of \<^verbatim>\<open>methods/bo.py\<close>\<close>

text \<open>
  The class \<^verbatim>\<open>BO\<close> extends gpflow's \<^verbatim>\<open>GPR\<close>. Its methods are embedded as HOL
  functions over explicit state. Floating-point numbers are read as reals; the one
  non-finite value the source writes itself, \<^verbatim>\<open>float("inf")\<close>, has its own
  constructor. Code outside the file (gpflow, numpy's generator, the solver module,
  the objective) is taken as a record of functions, \<open>env\<close>; so is the rounded
  arithmetic of \<^verbatim>\<open>normalize\<close>, whose guard depends on the rounding.
\<close>

subsection \<open>Exceptions and Python values\<close>

datatype exn =
    KeyboardInterrupt
  | KeyError string
  | TypeError
  | ValueError
  | IndexError
  | AttributeError
  | AssertionError
  | UnboundLocalError
  | ExternalError nat  \<comment> \<open>any other exception raised by a collaborator\<close>

text \<open>A two-dimensional numpy array: its column count is kept, as an array of shape
  \<open>(0, n)\<close> still has \<open>n\<close> columns.\<close>

record ndarray =
  ncols :: nat
  rows :: "real list list"

definition nrows :: "ndarray \<Rightarrow> nat" where
  "nrows A = length (rows A)"

definition wf_array :: "ndarray \<Rightarrow> bool" where
  "wf_array A = list_all (\<lambda>r. length r = ncols A) (rows A)"

text \<open>The process-wide state the code reads and writes: numpy's global generator (a
  stream of draws from \<open>[0, 1)\<close> and the position reached), the lines printed on
  \<^verbatim>\<open>sys.stderr\<close> (the trial index of each message), and the state of the
  collaborators.\<close>

record world =
  rng :: "nat \<Rightarrow> real"
  rng_pos :: nat
  stderr :: "nat list"
  ext :: nat

record objective =
  obj_bounds :: "(real \<times> real) list"
  obj_f :: "world \<Rightarrow> ndarray \<Rightarrow> world \<times> (exn + ndarray)"

datatype pyval =
    PNone
  | PBool bool
  | PInt int
  | PFloat real
  | PStr string
  | PObjective objective
  | PKernel nat
  | PCallable nat

type_synonym pydict = "string \<rightharpoonup> pyval"

text \<open>\<^verbatim>\<open>d[k]\<close> raises \<^verbatim>\<open>KeyError\<close> on a missing key.\<close>

definition getitem :: "pydict \<Rightarrow> string \<Rightarrow> exn + pyval" where
  "getitem d k = (case d k of None \<Rightarrow> Inl (KeyError k) | Some v \<Rightarrow> Inr v)"

text \<open>Truth value of a Python object, as \<^verbatim>\<open>and\<close> and \<^verbatim>\<open>if\<close> test it.\<close>

fun truthy :: "pyval \<Rightarrow> bool" where
  "truthy PNone = False"
| "truthy (PBool b) = b"
| "truthy (PInt n) = (n \<noteq> 0)"
| "truthy (PFloat x) = (x \<noteq> 0)"
| "truthy (PStr s) = (s \<noteq> [])"
| "truthy (PObjective ob) = True"
| "truthy (PKernel k) = True"
| "truthy (PCallable c) = True"

text \<open>What \<^verbatim>\<open>range\<close> and array shapes accept: an integer (\<^verbatim>\<open>bool\<close> is a subclass
  of \<^verbatim>\<open>int\<close>); anything else is a \<^verbatim>\<open>TypeError\<close>.\<close>

fun as_index :: "pyval \<Rightarrow> exn + int" where
  "as_index (PInt n) = Inr n"
| "as_index (PBool b) = Inr (if b then 1 else 0)"
| "as_index v = Inl TypeError"

text \<open>\<^verbatim>\<open>v > 0\<close> for the values a count can hold.\<close>

fun gt_zero :: "pyval \<Rightarrow> exn + bool" where
  "gt_zero (PInt n) = Inr (0 < n)"
| "gt_zero (PBool b) = Inr b"
| "gt_zero (PFloat x) = Inr (0 < x)"
| "gt_zero v = Inl TypeError"

text \<open>A store of mutable objects addressed by number, for the two places where a
  claim depends on which object is written: the caller's options dict and the array
  passed to \<^verbatim>\<open>normalize\<close>.\<close>

record 'a store =
  cells :: "nat \<Rightarrow> 'a"
  next_addr :: nat

definition alloc :: "'a store \<Rightarrow> 'a \<Rightarrow> nat \<times> 'a store" where
  "alloc h v = (next_addr h, h\<lparr>cells := (cells h)(next_addr h := v), next_addr := Suc (next_addr h)\<rparr>)"

definition store_write :: "'a store \<Rightarrow> nat \<Rightarrow> 'a \<Rightarrow> 'a store" where
  "store_write h a v = h\<lparr>cells := (cells h)(a := v)\<rparr>"

subsection \<open>Array operations used by the source\<close>

definition zeros :: "nat \<Rightarrow> nat \<Rightarrow> ndarray" where
  "zeros k n = \<lparr>ncols = n, rows = replicate k (replicate n 0)\<rparr>"

text \<open>\<^verbatim>\<open>A[:, i] = vals\<close> with \<open>i\<close> a column of \<open>A\<close> and one value for each row.\<close>

definition set_column :: "ndarray \<Rightarrow> nat \<Rightarrow> real list \<Rightarrow> ndarray" where
  "set_column A i vals = A\<lparr>rows := map (\<lambda>(r, v). r[i := v]) (zip (rows A) vals)\<rparr>"

text \<open>\<^verbatim>\<open>A[:, 0]\<close> raises \<^verbatim>\<open>IndexError\<close> on an array without columns.\<close>

definition column0 :: "ndarray \<Rightarrow> exn + real list" where
  "column0 A = (if ncols A = 0 then Inl IndexError else Inr (map (\<lambda>r. r ! 0) (rows A)))"

text \<open>\<^verbatim>\<open>A[:, 0:1]\<close>: the slice never raises; it keeps at most the first column.\<close>

definition slice01 :: "ndarray \<Rightarrow> ndarray" where
  "slice01 A = \<lparr>ncols = min 1 (ncols A), rows = map (take 1) (rows A)\<rparr>"

text \<open>\<^verbatim>\<open>np.concatenate((A, B))\<close> along axis 0 raises \<^verbatim>\<open>ValueError\<close> when the column
  counts differ.\<close>

definition concatenate :: "ndarray \<Rightarrow> ndarray \<Rightarrow> exn + ndarray" where
  "concatenate A B =
     (if ncols A = ncols B then Inr \<lparr>ncols = ncols A, rows = rows A @ rows B\<rparr>
      else Inl ValueError)"

subsection \<open>\<^verbatim>\<open>random_sample\<close>\<close>

text \<open>\<^verbatim>\<open>np.random.uniform(low, high, k)\<close>: \<open>k\<close> draws of the global generator, each
  scaled as \<open>low + (high - low) * u\<close>.\<close>

definition uniform :: "world \<Rightarrow> real \<Rightarrow> real \<Rightarrow> nat \<Rightarrow> world \<times> real list" where
  "uniform w low high k =
     (w\<lparr>rng_pos := rng_pos w + k\<rparr>,
      map (\<lambda>j. low + (high - low) * rng w (rng_pos w + j)) [0..<k])"

text \<open>The loop \<^verbatim>\<open>for i in range(n): X[:, i] = np.random.uniform(...)\<close>, as a recursion
  over the remaining rows of \<open>bounds\<close> with the column index \<open>i\<close>.\<close>

fun fill_columns ::
  "world \<Rightarrow> (real \<times> real) list \<Rightarrow> nat \<Rightarrow> nat \<Rightarrow> ndarray \<Rightarrow> world \<times> ndarray" where
  "fill_columns w [] i k A = (w, A)"
| "fill_columns w (b # bs) i k A =
     (case uniform w (fst b) (snd b) k of
        (w', col) \<Rightarrow> fill_columns w' bs (Suc i) k (set_column A i col))"

text \<open>\<^verbatim>\<open>np.zeros((k, n))\<close> raises \<^verbatim>\<open>ValueError\<close> for a negative \<open>k\<close>.\<close>

definition random_sample ::
  "world \<Rightarrow> (real \<times> real) list \<Rightarrow> int \<Rightarrow> world \<times> (exn + ndarray)" where
  "random_sample w bnds k =
     (if k < 0 then (w, Inl ValueError)
      else case fill_columns w bnds 0 (nat k) (zeros (nat k) (length bnds)) of
             (w', A) \<Rightarrow> (w', Inr A))"


subsection \<open>The model object\<close>

text \<open>The attributes of gpflow's \<^verbatim>\<open>GPR\<close> that the code reads or writes. \<open>free_state\<close> is
  the parameter vector behind \<^verbatim>\<open>get_free_state\<close> and \<^verbatim>\<open>set_state\<close>; \<open>X_data\<close> and
  \<open>Y_data\<close> are the attributes \<^verbatim>\<open>X\<close> and \<^verbatim>\<open>Y\<close>.\<close>

record gpr =
  X_data :: ndarray
  Y_data :: ndarray
  kern :: pyval
  mean_function :: pyval
  likelihood_variance :: pyval
  likelihood_variance_fixed :: bool
  free_state :: "real list"
  needs_recompile :: bool

text \<open>\<^verbatim>\<open>class BO(GPR)\<close>. The attributes \<^verbatim>\<open>seed\<close> and \<^verbatim>\<open>samples\<close> do not exist before
  their first assignment.\<close>

record bo = gpr +
  bounds :: "(real \<times> real) list"
  dim :: nat
  iterations :: pyval
  batch_size :: pyval
  initial_size :: pyval
  hessian :: pyval
  options :: pydict
  seed :: "pyval option"
  samples :: "nat option"

text \<open>The collaborators. Each takes the process state and returns it; a method of the
  model returns the model as it has left it, together with the exception it raised, if
  any. \<open>objective_of\<close> is \<^verbatim>\<open>self._objective\<close>, read as \<^verbatim>\<open>obj(x)[0]\<close>; \<open>call_object\<close> is
  the call of a callable Python object. Of the triple the solver returns, the status
  is never read by the code and is left out.\<close>

text \<open>The last four collaborators are numpy's arithmetic on double-precision numbers,
  which \<^verbatim>\<open>normalize\<close> uses: the reductions \<^verbatim>\<open>np.mean\<close> and \<^verbatim>\<open>np.std\<close> of a vector, and
  the subtraction and the division that \<^verbatim>\<open>-\<close> and \<^verbatim>\<open>/\<close> apply to each entry of an
  array. Every one of them rounds, so none is the operation of the same name on the
  reals, and nothing is assumed of them: in particular the computed mean of equal
  values need not be that value, and the computed standard deviation of a constant
  column need not be \<open>0\<close> (for three copies of the double nearest to \<open>1/10\<close> it is
  \<open>1 / 2 ^ 56\<close>). The numbers of the model are the finite doubles, read as reals; a result
  of \<^verbatim>\<open>np.std\<close> that is not a number compares false with \<open>0\<close>, as a value that is not
  positive does.\<close>

record env =
  tf_set_random_seed :: "world \<Rightarrow> pyval \<Rightarrow> world \<times> exn option"
  random_seed :: "world \<Rightarrow> pyval \<Rightarrow> world \<times> exn option"
  call_object :: "nat \<Rightarrow> world \<Rightarrow> pyval \<Rightarrow> world \<times> exn option"
  gpr_init :: "ndarray \<Rightarrow> ndarray \<Rightarrow> pyval \<Rightarrow> pyval \<Rightarrow> exn + gpr"
  compile :: "world \<Rightarrow> bo \<Rightarrow> world \<times> bo \<times> exn option"
  objective_of :: "bo \<Rightarrow> real list \<Rightarrow> exn + real"
  randomize :: "world \<Rightarrow> bo \<Rightarrow> world \<times> bo \<times> exn option"
  optimize :: "world \<Rightarrow> bo \<Rightarrow> world \<times> bo \<times> exn option"
  sample :: "world \<Rightarrow> bo \<Rightarrow> pyval \<Rightarrow> world \<times> (exn + nat)"
  get_samples_df :: "bo \<Rightarrow> nat \<Rightarrow> exn + nat"
  solve :: "world \<Rightarrow> bo \<Rightarrow> ndarray \<Rightarrow> (real \<times> real) list \<Rightarrow> pyval \<Rightarrow> pyval
            \<Rightarrow> world \<times> (exn + ndarray \<times> real)"
  np_mean :: "real list \<Rightarrow> real"
  np_std :: "real list \<Rightarrow> real"
  np_subtract :: "real \<Rightarrow> real \<Rightarrow> real"
  np_divide :: "real \<Rightarrow> real \<Rightarrow> real"

definition bind :: "exn + 'a \<Rightarrow> ('a \<Rightarrow> exn + 'b) \<Rightarrow> exn + 'b" where
  "bind r f = (case r of Inl e \<Rightarrow> Inl e | Inr v \<Rightarrow> f v)"

fun is_none :: "pyval \<Rightarrow> bool" where
  "is_none PNone = True"
| "is_none v = False"

subsection \<open>\<^verbatim>\<open>BO.__init__\<close>\<close>

text \<open>Lines 28 to 38: the attributes unpacked from \<open>options\<close>, the shallow copy kept as
  \<^verbatim>\<open>self.options\<close>, and the noise fixed when \<^verbatim>\<open>self.options['noise']\<close> is not
  \<^verbatim>\<open>None\<close>.\<close>

definition unpack_options :: "gpr \<Rightarrow> (real \<times> real) list \<Rightarrow> pydict \<Rightarrow> exn + bo" where
  "unpack_options g bnds opts =
     bind (getitem opts ''iterations'') (\<lambda>its.
     bind (getitem opts ''batch_size'') (\<lambda>bs.
     bind (getitem opts ''initial_size'') (\<lambda>isz.
     bind (getitem opts ''hessian'') (\<lambda>hs.
       (let self = gpr.extend g (bo.fields bnds (length bnds) its bs isz hs opts None None)
        in bind (getitem (options self) ''noise'') (\<lambda>nz.
             Inr (if \<not> is_none nz
                  then self\<lparr>likelihood_variance := nz, likelihood_variance_fixed := True\<rparr>
                  else self)))))))"

text \<open>The constructor, called with the address of the caller's dict. Line 16 reads
  \<^verbatim>\<open>options['objective'].bounds\<close>; line 20 writes into the caller's dict; line 21 calls
  the constructor of \<^verbatim>\<open>GPR\<close>. The store is returned also when the constructor
  raises.\<close>

definition BO_init :: "env \<Rightarrow> pydict store \<Rightarrow> nat \<Rightarrow> pydict store \<times> (exn + bo)" where
  "BO_init env h opts =
     (case getitem (cells h opts) ''objective'' of
        Inl e \<Rightarrow> (h, Inl e)
      | Inr ov \<Rightarrow>
        (case ov of
           PObjective ob \<Rightarrow>
             (let bnds = obj_bounds ob;
                  d = length bnds;
                  h1 = (if cells h opts ''mean_function'' = None
                        then store_write h opts ((cells h opts)(''mean_function'' \<mapsto> PNone))
                        else h);
                  o1 = cells h1 opts
              in (h1,
                  bind (getitem o1 ''kernel'') (\<lambda>k.
                  bind (getitem o1 ''mean_function'') (\<lambda>mf.
                  bind (gpr_init env (zeros 0 d) (zeros 0 d) k mf) (\<lambda>g.
                    unpack_options g bnds o1)))))
         | _ \<Rightarrow> (h, Inl AttributeError)))"

subsection \<open>\<^verbatim>\<open>normalize\<close>\<close>

text \<open>\<open>Y\<close> is the address of the argument. \<^verbatim>\<open>Y_ = Y.copy()\<close> allocates a new array;
  the assignment \<^verbatim>\<open>Y_[:, 0] = ...\<close> writes that array. The result is the address of
  \<open>Y_\<close>. The guard of line 198 compares what \<^verbatim>\<open>np.std\<close> computes with \<open>0\<close>; line 199
  subtracts what \<^verbatim>\<open>np.mean\<close> computes from every entry of column \<open>0\<close> and divides the
  difference by what \<^verbatim>\<open>np.std\<close> computes.\<close>

definition normalize :: "env \<Rightarrow> bo \<Rightarrow> ndarray store \<Rightarrow> nat \<Rightarrow> ndarray store \<times> (exn + nat)" where
  "normalize env self h Y =
     (case alloc h (cells h Y) of
        (Y', h1) \<Rightarrow>
          (case getitem (options self) ''normalize_Y'' of
             Inl e \<Rightarrow> (h1, Inl e)
           | Inr flag \<Rightarrow>
               if \<not> truthy flag then (h1, Inr Y')
               else (case column0 (cells h1 Y) of
                       Inl e \<Rightarrow> (h1, Inl e)
                     | Inr y \<Rightarrow>
                         if 0 < np_std env y
                         then (store_write h1 Y'
                                 (set_column (cells h1 Y') 0
                                    (map (\<lambda>v. np_divide env (np_subtract env v (np_mean env y))
                                                         (np_std env y)) y)),
                               Inr Y')
                         else (h1, Inr Y'))))"

text \<open>A call \<^verbatim>\<open>self.normalize(A)\<close> on a temporary \<open>A\<close> (a slice), read back as a value:
  the temporary is the only array of a private store.\<close>

definition normalize_call :: "env \<Rightarrow> bo \<Rightarrow> ndarray \<Rightarrow> exn + ndarray" where
  "normalize_call env self A =
     (case normalize env self \<lparr>cells = (\<lambda>a. A), next_addr = 1\<rparr> 0 of
        (h, Inl e) \<Rightarrow> Inl e
      | (h, Inr a) \<Rightarrow> Inr (cells h a))"

subsection \<open>\<^verbatim>\<open>optimize_restarts\<close>\<close>

text \<open>An objective value: a real, or the \<^verbatim>\<open>float("inf")\<close> of line 161.\<close>

datatype pyfloat = Fin real | PosInf

fun float_less :: "pyfloat \<Rightarrow> pyfloat \<Rightarrow> bool" where
  "float_less (Fin a) (Fin b) = (a < b)"
| "float_less (Fin a) PosInf = True"
| "float_less PosInf b = False"

text \<open>The local variables of the loop. \<^verbatim>\<open>x\<close> is unbound until line 156 first assigns
  it.\<close>

record restart_locals =
  par_min :: "real list"
  val_min :: pyfloat
  x_var :: "real list option"

text \<open>The body of the \<^verbatim>\<open>try\<close> (lines 154 to 157): the value of \<^verbatim>\<open>val\<close>, or the
  exception raised, with \<^verbatim>\<open>x\<close> as the body has left it.\<close>

definition restart_try ::
  "env \<Rightarrow> (real list \<Rightarrow> exn + real) \<Rightarrow> world \<Rightarrow> bo \<Rightarrow> real list option
   \<Rightarrow> world \<times> bo \<times> real list option \<times> (exn + real)" where
  "restart_try env obj w self x =
     (case randomize env w self of
        (w1, self1, Some e) \<Rightarrow> (w1, self1, x, Inl e)
      | (w1, self1, None) \<Rightarrow>
          (case optimize env w1 self1 of
             (w2, self2, Some e) \<Rightarrow> (w2, self2, x, Inl e)
           | (w2, self2, None) \<Rightarrow>
               (w2, self2, Some (free_state self2), obj (free_state self2))))"

text \<open>One iteration (lines 153 to 165). \<^verbatim>\<open>KeyboardInterrupt\<close> is raised again; any
  other exception sets \<^verbatim>\<open>val\<close> to infinity. Reading an unbound \<^verbatim>\<open>x\<close> at line 164 would
  raise \<^verbatim>\<open>UnboundLocalError\<close>.\<close>

definition restart_iteration ::
  "env \<Rightarrow> (real list \<Rightarrow> exn + real) \<Rightarrow> world \<times> bo \<times> restart_locals
   \<Rightarrow> (world \<times> bo \<times> restart_locals) \<times> exn option" where
  "restart_iteration env obj st =
     (case st of (w, self, L) \<Rightarrow>
       (case restart_try env obj w self (x_var L) of
          (w', self', x', r) \<Rightarrow>
            (if r = Inl KeyboardInterrupt
             then ((w', self', L\<lparr>x_var := x'\<rparr>), Some KeyboardInterrupt)
             else (let val = (case r of Inl e \<Rightarrow> PosInf | Inr v \<Rightarrow> Fin v)
                   in if float_less val (val_min L)
                      then (case x' of
                              None \<Rightarrow> ((w', self', L\<lparr>x_var := x'\<rparr>), Some UnboundLocalError)
                            | Some xv \<Rightarrow>
                                ((w', self', \<lparr>par_min = xv, val_min = val, x_var = x'\<rparr>), None))
                      else ((w', self', L\<lparr>x_var := x'\<rparr>), None)))))"

text \<open>\<^verbatim>\<open>for i in range(restarts)\<close>: the body does not read \<^verbatim>\<open>i\<close>, so the loop is a
  recursion on the number of iterations left.\<close>

fun restart_loop ::
  "env \<Rightarrow> (real list \<Rightarrow> exn + real) \<Rightarrow> nat \<Rightarrow> world \<times> bo \<times> restart_locals
   \<Rightarrow> (world \<times> bo \<times> restart_locals) \<times> exn option" where
  "restart_loop env obj 0 st = (st, None)"
| "restart_loop env obj (Suc n) st =
     (case restart_iteration env obj st of
        (st', Some e) \<Rightarrow> (st', Some e)
      | (st', None) \<Rightarrow> restart_loop env obj n st')"

text \<open>Lines 146 and 147.\<close>

definition recompile_if_needed :: "env \<Rightarrow> world \<Rightarrow> bo \<Rightarrow> world \<times> bo \<times> exn option" where
  "recompile_if_needed env w self =
     (if needs_recompile self then compile env w self else (w, self, None))"

text \<open>The method. \<open>restarts\<close> is the Python value passed; \<^verbatim>\<open>range\<close> reads it at line
  152, after the objective of the entry state has been evaluated. The keyword
  arguments handed on to \<^verbatim>\<open>optimize\<close> are left out: the loop passes none.\<close>

definition optimize_restarts :: "env \<Rightarrow> world \<Rightarrow> bo \<Rightarrow> pyval \<Rightarrow> world \<times> bo \<times> exn option" where
  "optimize_restarts env w self restarts =
     (case recompile_if_needed env w self of
        (w1, self1, Some e) \<Rightarrow> (w1, self1, Some e)
      | (w1, self1, None) \<Rightarrow>
          (case objective_of env self1 (free_state self1) of
             Inl e \<Rightarrow> (w1, self1, Some e)
           | Inr v \<Rightarrow>
               (case as_index restarts of
                  Inl e \<Rightarrow> (w1, self1, Some e)
                | Inr n \<Rightarrow>
                    (case restart_loop env (objective_of env self1) (nat n)
                            (w1, self1, \<lparr>par_min = free_state self1, val_min = Fin v, x_var = None\<rparr>) of
                       ((w2, self2, L), Some e) \<Rightarrow> (w2, self2, Some e)
                     | ((w2, self2, L), None) \<Rightarrow>
                         (w2, self2\<lparr>free_state := par_min L\<rparr>, None)))))"


subsection \<open>\<^verbatim>\<open>get_suggestion\<close>\<close>

text \<open>\<^verbatim>\<open>np.tile(self.bounds, (batch_size, 1))\<close> raises \<^verbatim>\<open>ValueError\<close> for a negative
  repetition count.\<close>

definition np_tile :: "(real \<times> real) list \<Rightarrow> int \<Rightarrow> exn + (real \<times> real) list" where
  "np_tile bnds reps =
     (if reps < 0 then Inl ValueError else Inr (concat (replicate (nat reps) bnds)))"

text \<open>The local variables \<^verbatim>\<open>X\<close> and \<^verbatim>\<open>y\<close>, both \<^verbatim>\<open>None\<close> at first.\<close>

record suggestion_locals =
  X_var :: "ndarray option"
  y_var :: "real option"

text \<open>The call of line 108. Its arguments are evaluated inside the \<^verbatim>\<open>try\<close>, so a
  missing \<^verbatim>\<open>'nl_solver'\<close> is an exception of the trial.\<close>

definition solve_call ::
  "env \<Rightarrow> world \<Rightarrow> bo \<Rightarrow> ndarray \<Rightarrow> (real \<times> real) list \<Rightarrow> world \<times> (exn + ndarray \<times> real)" where
  "solve_call env w self X_init bounds_tiled =
     (case getitem (options self) ''nl_solver'' of
        Inl e \<Rightarrow> (w, Inl e)
      | Inr s \<Rightarrow> solve env w self X_init bounds_tiled (hessian self) s)"

text \<open>Lines 116 and 117, inside the \<^verbatim>\<open>try\<close>: the result is the new pair of locals, or
  the \<^verbatim>\<open>TypeError\<close> of comparing with a \<^verbatim>\<open>y\<close> that is \<^verbatim>\<open>None\<close>.\<close>

definition update_best :: "suggestion_locals \<Rightarrow> ndarray \<Rightarrow> real \<Rightarrow> exn + suggestion_locals" where
  "update_best L X0 y0 =
     (case X_var L of
        None \<Rightarrow> Inr \<lparr>X_var = Some X0, y_var = Some y0\<rparr>
      | Some X \<Rightarrow>
          (case y_var L of
             None \<Rightarrow> Inl TypeError
           | Some y \<Rightarrow> Inr (if y0 < y then \<lparr>X_var = Some X0, y_var = Some y0\<rparr> else L)))"

text \<open>The outcome of the \<^verbatim>\<open>try\<close> body of trial \<open>j\<close> (lines 105 to 117): the locals it
  leaves, or the exception it raises. \<^verbatim>\<open>random_sample\<close> is called before the
  \<^verbatim>\<open>try\<close>, so its exception leaves the method.\<close>

definition suggestion_try ::
  "env \<Rightarrow> bo \<Rightarrow> (real \<times> real) list \<Rightarrow> world \<Rightarrow> ndarray \<Rightarrow> suggestion_locals
   \<Rightarrow> world \<times> (exn + suggestion_locals)" where
  "suggestion_try env self bounds_tiled w X_init L =
     (case solve_call env w self X_init bounds_tiled of
        (w', Inl e) \<Rightarrow> (w', Inl e)
      | (w', Inr (X0, y0)) \<Rightarrow> (w', update_best L X0 y0))"

text \<open>One iteration of the loop of line 103. \<^verbatim>\<open>KeyboardInterrupt\<close> is raised again;
  any other exception prints the message of trial \<open>j\<close> and leaves the locals as they
  were.\<close>

definition suggestion_iteration ::
  "env \<Rightarrow> bo \<Rightarrow> int \<Rightarrow> (real \<times> real) list \<Rightarrow> nat \<Rightarrow> world \<times> suggestion_locals
   \<Rightarrow> (world \<times> suggestion_locals) \<times> exn option" where
  "suggestion_iteration env self n_batch bounds_tiled j st =
     (case st of (w, L) \<Rightarrow>
       (case random_sample w (bounds self) n_batch of
          (w1, Inl e) \<Rightarrow> ((w1, L), Some e)
        | (w1, Inr X_init) \<Rightarrow>
            (case suggestion_try env self bounds_tiled w1 X_init L of
               (w2, Inr L') \<Rightarrow> ((w2, L'), None)
             | (w2, Inl e) \<Rightarrow>
                 if e = KeyboardInterrupt then ((w2, L), Some KeyboardInterrupt)
                 else ((w2\<lparr>stderr := stderr w2 @ [j]\<rparr>, L), None))))"

fun suggestion_loop ::
  "env \<Rightarrow> bo \<Rightarrow> int \<Rightarrow> (real \<times> real) list \<Rightarrow> nat list \<Rightarrow> world \<times> suggestion_locals
   \<Rightarrow> (world \<times> suggestion_locals) \<times> exn option" where
  "suggestion_loop env self n_batch bounds_tiled [] st = (st, None)"
| "suggestion_loop env self n_batch bounds_tiled (j # js) st =
     (case suggestion_iteration env self n_batch bounds_tiled j st of
        (st', Some e) \<Rightarrow> (st', Some e)
      | (st', None) \<Rightarrow> suggestion_loop env self n_batch bounds_tiled js st')"

text \<open>The method; \<open>n_batch\<close> is its parameter \<^verbatim>\<open>batch_size\<close>. \<^verbatim>\<open>assert X is not None\<close>
  raises \<^verbatim>\<open>AssertionError\<close> (assertions are taken as enabled).\<close>

definition get_suggestion :: "env \<Rightarrow> world \<Rightarrow> bo \<Rightarrow> int \<Rightarrow> world \<times> (exn + ndarray)" where
  "get_suggestion env w self n_batch =
     (case np_tile (bounds self) n_batch of
        Inl e \<Rightarrow> (w, Inl e)
      | Inr bounds_tiled \<Rightarrow>
          (case bind (getitem (options self) ''opt_restarts'') as_index of
             Inl e \<Rightarrow> (w, Inl e)
           | Inr n \<Rightarrow>
               (case suggestion_loop env self n_batch bounds_tiled [0..<nat n]
                       (w, \<lparr>X_var = None, y_var = None\<rparr>) of
                  ((w', L), Some e) \<Rightarrow> (w', Inl e)
                | ((w', L), None) \<Rightarrow>
                    (case X_var L of
                       None \<Rightarrow> (w', Inl AssertionError)
                     | Some X \<Rightarrow> (w', Inr X)))))"

subsection \<open>\<^verbatim>\<open>bayesian_optimization\<close>\<close>

text \<open>The call \<^verbatim>\<open>f(arg)\<close> of a Python value, its result dropped: a value that is not
  callable raises \<^verbatim>\<open>TypeError\<close>.\<close>

definition py_call :: "env \<Rightarrow> world \<Rightarrow> pyval \<Rightarrow> pyval \<Rightarrow> world \<times> exn option" where
  "py_call env w f arg =
     (case f of PCallable c \<Rightarrow> call_object env c w arg | _ \<Rightarrow> (w, Some TypeError))"

text \<open>Lines 71 to 74: the posterior samples, drawn when \<^verbatim>\<open>options['samples'] > 0\<close>.\<close>

definition draw_samples :: "env \<Rightarrow> world \<Rightarrow> bo \<Rightarrow> world \<times> bo \<times> exn option" where
  "draw_samples env w self =
     (case getitem (options self) ''samples'' of
        Inl e \<Rightarrow> (w, self, Some e)
      | Inr s \<Rightarrow>
          (case gt_zero s of
             Inl e \<Rightarrow> (w, self, Some e)
           | Inr False \<Rightarrow> (w, self, None)
           | Inr True \<Rightarrow>
               (case getitem (options self) ''samples'' of
                  Inl e \<Rightarrow> (w, self, Some e)
                | Inr s' \<Rightarrow>
                    (case sample env w self s' of
                       (w1, Inl e) \<Rightarrow> (w1, self, Some e)
                     | (w1, Inr raw) \<Rightarrow>
                         (case get_samples_df env self raw of
                            Inl e \<Rightarrow> (w1, self, Some e)
                          | Inr df \<Rightarrow> (w1, self\<lparr>samples := Some df\<rparr>, None))))))"

text \<open>Lines 77 and 78: the batch proposed and the objective evaluated on it.\<close>

definition propose_and_evaluate ::
  "env \<Rightarrow> objective \<Rightarrow> world \<Rightarrow> bo \<Rightarrow> world \<times> (exn + ndarray \<times> ndarray)" where
  "propose_and_evaluate env ob w self =
     (case as_index (batch_size self) of
        Inl e \<Rightarrow> (w, Inl e)
      | Inr b \<Rightarrow>
          (case get_suggestion env w self b of
             (w1, Inl e) \<Rightarrow> (w1, Inl e)
           | (w1, Inr X_new) \<Rightarrow>
               (case obj_f ob w1 X_new of
                  (w2, Inl e) \<Rightarrow> (w2, Inl e)
                | (w2, Inr y_new) \<Rightarrow> (w2, Inr (X_new, y_new)))))"

text \<open>Lines 82 to 90: both arrays are extended, then the model is given the whole
  history, with the first column of \<open>y_all\<close> normalised.\<close>

definition append_and_update ::
  "env \<Rightarrow> bo \<Rightarrow> ndarray \<Rightarrow> ndarray \<Rightarrow> ndarray \<Rightarrow> ndarray \<Rightarrow> exn + bo \<times> ndarray \<times> ndarray" where
  "append_and_update env self X_all y_all X_new y_new =
     bind (concatenate X_all X_new) (\<lambda>X_all'.
     bind (concatenate y_all y_new) (\<lambda>y_all'.
     bind (normalize_call env (self\<lparr>X_data := X_all'\<rparr>) (slice01 y_all')) (\<lambda>Yn.
       Inr (self\<lparr>X_data := X_all', Y_data := Yn\<rparr>, X_all', y_all'))))"

text \<open>The loop state: the process state, the model, \<open>X_all\<close> and \<open>y_all\<close>.\<close>

type_synonym loop_state = "world \<times> bo \<times> ndarray \<times> ndarray"

text \<open>The body of the loop of line 68.\<close>

definition bo_iteration :: "env \<Rightarrow> objective \<Rightarrow> loop_state \<Rightarrow> loop_state \<times> exn option" where
  "bo_iteration env ob st =
     (case st of (w, self, X_all, y_all) \<Rightarrow>
       (case getitem (options self) ''model_restarts'' of
          Inl e \<Rightarrow> (st, Some e)
        | Inr r \<Rightarrow>
            (case optimize_restarts env w self r of
               (w1, self1, Some e) \<Rightarrow> ((w1, self1, X_all, y_all), Some e)
             | (w1, self1, None) \<Rightarrow>
                 (case draw_samples env w1 self1 of
                    (w2, self2, Some e) \<Rightarrow> ((w2, self2, X_all, y_all), Some e)
                  | (w2, self2, None) \<Rightarrow>
                      (case propose_and_evaluate env ob w2 self2 of
                         (w3, Inl e) \<Rightarrow> ((w3, self2, X_all, y_all), Some e)
                       | (w3, Inr (X_new, y_new)) \<Rightarrow>
                           (case append_and_update env self2 X_all y_all X_new y_new of
                              Inl e \<Rightarrow> ((w3, self2, X_all, y_all), Some e)
                            | Inr (self3, X_all', y_all') \<Rightarrow>
                                ((w3, self3, X_all', y_all'), None)))))))"

text \<open>\<^verbatim>\<open>for i in range(self.iterations)\<close>: the body does not read \<^verbatim>\<open>i\<close>.\<close>

fun bo_loop :: "env \<Rightarrow> objective \<Rightarrow> nat \<Rightarrow> loop_state \<Rightarrow> loop_state \<times> exn option" where
  "bo_loop env ob 0 st = (st, None)"
| "bo_loop env ob (Suc n) st =
     (case bo_iteration env ob st of
        (st', Some e) \<Rightarrow> (st', Some e)
      | (st', None) \<Rightarrow> bo_loop env ob n st')"

text \<open>Lines 52 to 61: the objective is copied, the initial points are drawn and
  evaluated, and the model is given them.\<close>

definition initial_design ::
  "env \<Rightarrow> world \<Rightarrow> bo \<Rightarrow> world \<times> (exn + objective \<times> bo \<times> ndarray \<times> ndarray)" where
  "initial_design env w self =
     (case getitem (options self) ''objective'' of
        Inl e \<Rightarrow> (w, Inl e)
      | Inr ov \<Rightarrow>
          (case as_index (initial_size self) of
             Inl e \<Rightarrow> (w, Inl e)
           | Inr k \<Rightarrow>
               (case random_sample w (bounds self) k of
                  (w1, Inl e) \<Rightarrow> (w1, Inl e)
                | (w1, Inr X0) \<Rightarrow>
                    (case ov of
                       PObjective ob \<Rightarrow>
                         (case obj_f ob w1 X0 of
                            (w2, Inl e) \<Rightarrow> (w2, Inl e)
                          | (w2, Inr y0) \<Rightarrow>
                              (w2, bind (normalize_call env (self\<lparr>X_data := X0\<rparr>) (slice01 y0)) (\<lambda>Yn.
                                     Inr (ob, self\<lparr>X_data := X0, Y_data := Yn\<rparr>, X0, y0))))
                     | _ \<Rightarrow> (w1, Inl AttributeError)))))"

text \<open>Lines 52 to 92: everything after the seeding.\<close>

definition run_loop :: "env \<Rightarrow> world \<Rightarrow> bo \<Rightarrow> world \<times> (exn + ndarray \<times> ndarray)" where
  "run_loop env w self =
     (case initial_design env w self of
        (w1, Inl e) \<Rightarrow> (w1, Inl e)
      | (w1, Inr (ob, self1, X0, y0)) \<Rightarrow>
          (case as_index (iterations self1) of
             Inl e \<Rightarrow> (w1, Inl e)
           | Inr n \<Rightarrow>
               (case bo_loop env ob (nat n) (w1, self1, X0, y0) of
                  ((w2, self2, X_all, y_all), Some e) \<Rightarrow> (w2, Inl e)
                | ((w2, self2, X_all, y_all), None) \<Rightarrow> (w2, Inr (X_all, y_all)))))"

text \<open>The method. Line 47 seeds TensorFlow, line 48 calls the parameter \<^verbatim>\<open>seed\<close> on
  itself (inside the method the name \<^verbatim>\<open>seed\<close> is the parameter), line 49 seeds
  Python's generator. The method returns the history; the model object it leaves
  behind is not part of the result here.\<close>

definition bayesian_optimization ::
  "env \<Rightarrow> world \<Rightarrow> bo \<Rightarrow> pyval \<Rightarrow> world \<times> (exn + ndarray \<times> ndarray)" where
  "bayesian_optimization env w self sd =
     (case tf_set_random_seed env w sd of
        (w1, Some e) \<Rightarrow> (w1, Inl e)
      | (w1, None) \<Rightarrow>
          (case py_call env w1 sd sd of
             (w2, Some e) \<Rightarrow> (w2, Inl e)
           | (w2, None) \<Rightarrow>
               (case random_seed env w2 sd of
                  (w3, Some e) \<Rightarrow> (w3, Inl e)
                | (w3, None) \<Rightarrow> run_loop env w3 (self\<lparr>seed := Some sd\<rparr>))))"


subsection \<open>The trials of a multi-restart loop, as a list\<close>

text \<open>The two loops run a collaborator once per trial and keep the best result. To
  speak of ``the trials'', the outcomes of the calls are listed in the order of the
  loop: the process state (and, for the fit, the model) is threaded through the calls
  exactly as the loop threads it, and the list ends where the loop is left.\<close>

fun trial_outcomes ::
  "env \<Rightarrow> bo \<Rightarrow> int \<Rightarrow> (real \<times> real) list \<Rightarrow> nat list \<Rightarrow> world \<Rightarrow> (exn + ndarray \<times> real) list" where
  "trial_outcomes env self n_batch bounds_tiled [] w = []"
| "trial_outcomes env self n_batch bounds_tiled (j # js) w =
     (case random_sample w (bounds self) n_batch of
        (w1, Inl e) \<Rightarrow> []
      | (w1, Inr X_init) \<Rightarrow>
          (case solve_call env w1 self X_init bounds_tiled of
             (w2, Inl e) \<Rightarrow>
               Inl e # (if e = KeyboardInterrupt then []
                        else trial_outcomes env self n_batch bounds_tiled js
                               (w2\<lparr>stderr := stderr w2 @ [j]\<rparr>))
           | (w2, Inr c) \<Rightarrow> Inr c # trial_outcomes env self n_batch bounds_tiled js w2))"

text \<open>A restart of the fit succeeds with the parameter vector read at line 156 and its
  objective value. What a trial does to the process state and to the model does not
  depend on the local \<^verbatim>\<open>x\<close>, so the trials are listed with \<^verbatim>\<open>x\<close> unbound.\<close>

fun restart_outcomes ::
  "env \<Rightarrow> (real list \<Rightarrow> exn + real) \<Rightarrow> nat \<Rightarrow> world \<Rightarrow> bo \<Rightarrow> (exn + real list \<times> real) list" where
  "restart_outcomes env obj 0 w self = []"
| "restart_outcomes env obj (Suc n) w self =
     (case restart_try env obj w self None of
        (w', self', x', Inl e) \<Rightarrow>
          Inl e # (if e = KeyboardInterrupt then [] else restart_outcomes env obj n w' self')
      | (w', self', x', Inr v) \<Rightarrow>
          Inr (free_state self', v) # restart_outcomes env obj n w' self')"

fun successes :: "(exn + 'a) list \<Rightarrow> 'a list" where
  "successes [] = []"
| "successes (Inl e # rs) = successes rs"
| "successes (Inr c # rs) = c # successes rs"

text \<open>The rule of the specification, ``keep the trial with the strictly smallest
  objective value; ties keep the earlier'': \<open>r\<close> is the first minimum of the candidates
  \<open>cs\<close> when it is the head and nothing after it is smaller, or the head is strictly
  larger and \<open>r\<close> is the first minimum of the rest.\<close>

fun first_minimum :: "('a \<times> real) list \<Rightarrow> 'a \<times> real \<Rightarrow> bool" where
  "first_minimum [] r = False"
| "first_minimum (c # cs) r =
     ((c = r \<and> list_all (\<lambda>q. snd r \<le> snd q) cs) \<or> (snd r < snd c \<and> first_minimum cs r))"

text \<open>The locals of \<open>get_suggestion\<close> as an optional candidate.\<close>

definition incumbent :: "suggestion_locals \<Rightarrow> (ndarray \<times> real) option" where
  "incumbent L =
     (case X_var L of
        None \<Rightarrow> None
      | Some X \<Rightarrow> (case y_var L of None \<Rightarrow> None | Some y \<Rightarrow> Some (X, y)))"

definition paired :: "suggestion_locals \<Rightarrow> bool" where
  "paired L = ((X_var L = None) = (y_var L = None))"

text \<open>The reduction both loops perform, on a list of candidates: the incumbent is
  replaced by a candidate of strictly smaller value; without an incumbent the first
  candidate is taken.\<close>

fun pick :: "('a \<times> real) option \<Rightarrow> ('a \<times> real) list \<Rightarrow> ('a \<times> real) option" where
  "pick b [] = b"
| "pick None (c # cs) = pick (Some c) cs"
| "pick (Some b) (c # cs) = pick (Some (if snd c < snd b then c else b)) cs"


subsection \<open>Contracts of the collaborators\<close>

text \<open>What the loop of \<open>bayesian_optimization\<close> relies on, as the interfaces describe the
  collaborators: the objective maps \<open>k\<close> points to \<open>k\<close> rows of values; the solver
  returns a solution of the shape of its initial point; the methods of \<^verbatim>\<open>GPR\<close> do not
  assign the attribute \<^verbatim>\<open>batch_size\<close> of \<^verbatim>\<open>BO\<close>.\<close>

definition objective_keeps_rows :: "objective \<Rightarrow> bool" where
  "objective_keeps_rows ob = (\<forall>w A w' B. obj_f ob w A = (w', Inr B) \<longrightarrow> nrows B = nrows A)"

definition solver_keeps_rows :: "env \<Rightarrow> bool" where
  "solver_keeps_rows env =
     (\<forall>w s A bt h sv w' B y. solve env w s A bt h sv = (w', Inr (B, y)) \<longrightarrow> nrows B = nrows A)"

definition keeps_batch_size :: "(world \<Rightarrow> bo \<Rightarrow> world \<times> bo \<times> exn option) \<Rightarrow> bool" where
  "keeps_batch_size m = (\<forall>w s. batch_size (fst (snd (m w s))) = batch_size s)"


subsection \<open>Concrete inputs for the examples\<close>

definition w0 :: world where
  "w0 = \<lparr>rng = (\<lambda>j. 1 / 2), rng_pos = 0, stderr = [], ext = 0\<rparr>"

definition bnds0 :: "(real \<times> real) list" where
  "bnds0 = [(0, 1), (2, 4)]"


text \<open>The objective of the end-to-end scenario: \<open>f(x) = (x - 1/2)\<^sup>2\<close> on \<open>[0, 1]\<close>.\<close>

definition ob0 :: objective where
  "ob0 = \<lparr>obj_bounds = [(0, 1)],
          obj_f = (\<lambda>w A. (w, Inr \<lparr>ncols = 1, rows = map (\<lambda>r. [(r ! 0 - 1 / 2)\<^sup>2]) (rows A)\<rparr>))\<rparr>"

definition opts0 :: pydict where
  "opts0 = [''objective'' \<mapsto> PObjective ob0, ''kernel'' \<mapsto> PKernel 0,
            ''iterations'' \<mapsto> PInt 2, ''batch_size'' \<mapsto> PInt 1, ''initial_size'' \<mapsto> PInt 3,
            ''hessian'' \<mapsto> PBool False, ''noise'' \<mapsto> PNone, ''normalize_Y'' \<mapsto> PBool True,
            ''model_restarts'' \<mapsto> PInt 1, ''samples'' \<mapsto> PInt 0, ''opt_restarts'' \<mapsto> PInt 2,
            ''nl_solver'' \<mapsto> PStr ''lbfgs'']"

definition gpr0 :: gpr where
  "gpr0 = \<lparr>X_data = zeros 0 1, Y_data = zeros 0 1, kern = PKernel 0, mean_function = PNone,
           likelihood_variance = PFloat 1, likelihood_variance_fixed = False,
           free_state = [1], needs_recompile = True\<rparr>"

definition self0 :: bo where
  "self0 = gpr.extend gpr0
             (bo.fields [(0, 1)] 1 (PInt 2) (PInt 1) (PInt 3) (PBool False)
                (opts0(''mean_function'' \<mapsto> PNone)) None None)"

text \<open>Collaborators for the examples: seeding and calls succeed, the fitting objective
  is the square of the first parameter, \<^verbatim>\<open>randomize\<close> sets the parameter to the
  current draw of the generator and \<^verbatim>\<open>optimize\<close> halves it, the solver returns its
  initial point with acquisition value \<open>0\<close>. The arithmetic is the exact one (mean, and
  standard deviation with \<^verbatim>\<open>ddof = 0\<close>): on the columns of the examples, whose entries are
  small integers, double precision computes the same values.\<close>

definition env0 :: env where
  "env0 = \<lparr>tf_set_random_seed = (\<lambda>w v. (w, None)),
           random_seed = (\<lambda>w v. (w, None)),
           call_object = (\<lambda>c w v. (w, None)),
           gpr_init = (\<lambda>A B k mf. Inr (gpr0\<lparr>X_data := A, Y_data := B, kern := k, mean_function := mf\<rparr>)),
           compile = (\<lambda>w s. (w, s\<lparr>needs_recompile := False\<rparr>, None)),
           objective_of = (\<lambda>s x. Inr ((x ! 0)\<^sup>2)),
           randomize = (\<lambda>w s. (w\<lparr>rng_pos := Suc (rng_pos w)\<rparr>, s\<lparr>free_state := [rng w (rng_pos w)]\<rparr>, None)),
           optimize = (\<lambda>w s. (w, s\<lparr>free_state := map (\<lambda>v. v / 2) (free_state s)\<rparr>, None)),
           sample = (\<lambda>w s v. (w, Inr 0)),
           get_samples_df = (\<lambda>s raw. Inr raw),
           solve = (\<lambda>w s A bt h sv. (w, Inr (A, 0))),
           np_mean = (\<lambda>ys. sum_list ys / real (length ys)),
           np_std = (\<lambda>ys. sqrt (sum_list (map (\<lambda>y. (y - sum_list ys / real (length ys))\<^sup>2) ys)
                                / real (length ys))),
           np_subtract = (\<lambda>a b. a - b),
           np_divide = (\<lambda>a b. a / b)\<rparr>"

text \<open>A solver that raises on every call.\<close>

definition env_failing :: env where
  "env_failing = env0\<lparr>solve := (\<lambda>w s A bt h sv. (w, Inl (ExternalError 0)))\<rparr>"



text \<open>The caller's dict at address \<open>0\<close> of a store: \<open>opts0\<close> has no
  \<^verbatim>\<open>'mean_function'\<close>; the second store holds \<open>opts0\<close> without its \<^verbatim>\<open>'noise'\<close>
  entry.\<close>

definition hd0 :: "pydict store" where
  "hd0 = \<lparr>cells = (\<lambda>a. opts0), next_addr = 1\<rparr>"

definition hd_no_noise :: "pydict store" where
  "hd_no_noise = \<lparr>cells = (\<lambda>a. opts0(''noise'' := None)), next_addr = 1\<rparr>"

text \<open>A solver that raises when the generator stands at position \<open>1\<close> (the first trial
  of a batch of one point in one dimension) and succeeds otherwise.\<close>

definition env_flaky :: env where
  "env_flaky = env0\<lparr>solve := (\<lambda>w s A bt h sv.
                  if rng_pos w = 1 then (w, Inl (ExternalError 0)) else (w, Inr (A, 0)))\<rparr>"

definition A_half :: ndarray where
  "A_half = \<lparr>ncols = 1, rows = [[1 / 2]]\<rparr>"

text \<open>A local optimizer that raises on every call, and a model whose fitting objective
  and acquisition value are constant, so that all trials tie.\<close>

definition env_bad_fit :: env where
  "env_bad_fit = env0\<lparr>optimize := (\<lambda>w s. (w, s, Some (ExternalError 1)))\<rparr>"

definition env_tie :: env where
  "env_tie = env0\<lparr>objective_of := (\<lambda>s x. Inr 0)\<rparr>"

text \<open>A generator whose draws differ: \<open>1/2, 1/3, 1/4, \<dots>\<close>\<close>

definition w_var :: world where
  "w_var = \<lparr>rng = (\<lambda>j. 1 / (real j + 2)), rng_pos = 0, stderr = [], ext = 0\<rparr>"

definition A_third :: ndarray where
  "A_third = \<lparr>ncols = 1, rows = [[1 / 3]]\<rparr>"

text \<open>The model \<open>self0\<close> once compiled.\<close>

definition self0_compiled :: bo where
  "self0_compiled = self0\<lparr>needs_recompile := False\<rparr>"

text \<open>The history of the scenario with the constant generator \<open>w0\<close>: five evaluations
  of the objective at \<open>1/2\<close>.\<close>

definition X5 :: ndarray where
  "X5 = \<lparr>ncols = 1, rows = [[1 / 2], [1 / 2], [1 / 2], [1 / 2], [1 / 2]]\<rparr>"

definition y5 :: ndarray where
  "y5 = \<lparr>ncols = 1, rows = [[0], [0], [0], [0], [0]]\<rparr>"

text \<open>An arithmetic that agrees with double precision on a constant column: \<open>tenth\<close> is
  the double nearest to \<open>1/10\<close>. The sum of three copies is rounded up, so the computed
  mean is the next double, \<open>tenth + 1 / 2 ^ 56\<close>; the three deviations are \<open>- 1 / 2 ^ 56\<close>, and
  the computed standard deviation is \<open>1 / 2 ^ 56\<close>.\<close>

definition tenth :: real where
  "tenth = 3602879701896397 / 2 ^ 55"

definition env_rounding :: env where
  "env_rounding = env0\<lparr>np_mean := (\<lambda>ys. if ys = [tenth, tenth, tenth] then tenth + 1 / 2 ^ 56
                                         else np_mean env0 ys),
                        np_std := (\<lambda>ys. if ys = [tenth, tenth, tenth] then 1 / 2 ^ 56
                                        else np_std env0 ys)\<rparr>"

definition Y_tenth :: ndarray where
  "Y_tenth = \<lparr>ncols = 1, rows = [[tenth], [tenth], [tenth]]\<rparr>"

definition h_tenth :: "ndarray store" where
  "h_tenth = \<lparr>cells = (\<lambda>a. Y_tenth), next_addr = 1\<rparr>"


section \<open>Properties\<close>

subsection \<open>\<^verbatim>\<open>random_sample\<close>: shape and bounds\<close>

lemma uniform_world: "fst (uniform w lo hi k) = w\<lparr>rng_pos := rng_pos w + k\<rparr>"
  by (simp add: uniform_def)

lemma uniform_length: "length (snd (uniform w lo hi k)) = k"
  by (simp add: uniform_def)

lemma uniform_nth:
  "j < k \<Longrightarrow> snd (uniform w lo hi k) ! j = lo + (hi - lo) * rng w (rng_pos w + j)"
  by (simp add: uniform_def)

lemma set_column_ncols: "ncols (set_column A i vals) = ncols A"
  by (simp add: set_column_def)

lemma set_column_length:
  "length vals = length (rows A) \<Longrightarrow> length (rows (set_column A i vals)) = length (rows A)"
  by (simp add: set_column_def)

lemma set_column_row:
  "length vals = length (rows A) \<Longrightarrow> r < length (rows A) \<Longrightarrow>
   rows (set_column A i vals) ! r = (rows A ! r)[i := vals ! r]"
  by (simp add: set_column_def)

lemma fill_columns_spec:
  assumes "length (rows A) = k"
    and "\<forall>r < k. length (rows A ! r) = n"
    and "i + length bs \<le> n"
  shows "fst (fill_columns w bs i k A) = w\<lparr>rng_pos := rng_pos w + length bs * k\<rparr>
       \<and> ncols (snd (fill_columns w bs i k A)) = ncols A
       \<and> length (rows (snd (fill_columns w bs i k A))) = k
       \<and> (\<forall>r < k. length (rows (snd (fill_columns w bs i k A)) ! r) = n)
       \<and> (\<forall>r < k. \<forall>c < n. rows (snd (fill_columns w bs i k A)) ! r ! c =
            (if i \<le> c \<and> c < i + length bs
             then fst (bs ! (c - i)) + (snd (bs ! (c - i)) - fst (bs ! (c - i)))
                    * rng w (rng_pos w + (c - i) * k + r)
             else rows A ! r ! c))"
  using assms
proof (induction bs arbitrary: w i A)
  case Nil
  then show ?case by simp
next
  case (Cons b bs)
  define w1 where "w1 = fst (uniform w (fst b) (snd b) k)"
  define col where "col = snd (uniform w (fst b) (snd b) k)"
  define A1 where "A1 = set_column A i col"
  have u: "uniform w (fst b) (snd b) k = (w1, col)" by (simp add: w1_def col_def)
  have step: "fill_columns w (b # bs) i k A = fill_columns w1 bs (Suc i) k A1"
    by (simp add: u A1_def)
  have w1: "w1 = w\<lparr>rng_pos := rng_pos w + k\<rparr>" by (simp add: w1_def uniform_world)
  have lc: "length col = k" by (simp add: col_def uniform_length)
  have l1: "length (rows A1) = k" using Cons.prems(1) lc by (simp add: A1_def set_column_length)
  have row1: "\<And>r. r < k \<Longrightarrow> rows A1 ! r = (rows A ! r)[i := col ! r]"
    using Cons.prems(1) lc by (simp add: A1_def set_column_row)
  have r1: "\<forall>r < k. length (rows A1 ! r) = n" using row1 Cons.prems(2) by simp
  have b1: "Suc i + length bs \<le> n" using Cons.prems(3) by simp
  note IH = Cons.IH [OF l1 r1 b1, of w1]
  have coln: "\<And>r. r < k \<Longrightarrow> col ! r = fst b + (snd b - fst b) * rng w (rng_pos w + r)"
    by (simp add: col_def uniform_nth)
  have p1: "fst (fill_columns w (b # bs) i k A) = w\<lparr>rng_pos := rng_pos w + length (b # bs) * k\<rparr>"
    using IH step by (simp add: w1 add.assoc add.commute)
  have p2: "ncols (snd (fill_columns w (b # bs) i k A)) = ncols A"
    using IH step by (simp add: A1_def set_column_ncols)
  have p3: "length (rows (snd (fill_columns w (b # bs) i k A))) = k"
    using IH step by simp
  have p4: "\<forall>r < k. length (rows (snd (fill_columns w (b # bs) i k A)) ! r) = n"
    using IH step by simp
  have p5: "\<forall>r < k. \<forall>c < n. rows (snd (fill_columns w (b # bs) i k A)) ! r ! c =
            (if i \<le> c \<and> c < i + length (b # bs)
             then fst ((b # bs) ! (c - i)) + (snd ((b # bs) ! (c - i)) - fst ((b # bs) ! (c - i)))
                    * rng w (rng_pos w + (c - i) * k + r)
             else rows A ! r ! c)"
  proof (intro allI impI)
    fix r c assume r: "r < k" and c: "c < n"
    have e: "rows (snd (fill_columns w (b # bs) i k A)) ! r ! c =
            (if Suc i \<le> c \<and> c < Suc i + length bs
             then fst (bs ! (c - Suc i)) + (snd (bs ! (c - Suc i)) - fst (bs ! (c - Suc i)))
                    * rng w1 (rng_pos w1 + (c - Suc i) * k + r)
             else rows A1 ! r ! c)"
      using IH step r c by simp
    consider "c < i" | "c = i" | "i < c" by linarith
    then show "rows (snd (fill_columns w (b # bs) i k A)) ! r ! c =
            (if i \<le> c \<and> c < i + length (b # bs)
             then fst ((b # bs) ! (c - i)) + (snd ((b # bs) ! (c - i)) - fst ((b # bs) ! (c - i)))
                    * rng w (rng_pos w + (c - i) * k + r)
             else rows A ! r ! c)"
    proof cases
      case 1
      then show ?thesis using e r row1 by simp
    next
      case 2
      have "length (rows A ! r) = n" using Cons.prems(2) r by simp
      then show ?thesis using e r c row1 coln 2 by simp
    next
      case 3
      then obtain d where d: "c - i = Suc d" "c - Suc i = d" by (metis Suc_diff_Suc diff_Suc_eq_diff_pred Suc_pred zero_less_diff)
      have rw: "rng_pos w1 + d * k + r = rng_pos w + Suc d * k + r" by (simp add: w1)
      show ?thesis
      proof (cases "c < Suc i + length bs")
        case True
        then show ?thesis using e 3 d rw by (simp add: w1 add.assoc)
      next
        case False
        then show ?thesis using e 3 r row1 by simp
      qed
    qed
  qed
  show ?case using p1 p2 p3 p4 p5 by blast
qed


lemma scaled_draw_in_interval:
  fixes lo hi u :: real
  assumes "lo \<le> hi" "0 \<le> u" "u < 1"
  shows "lo \<le> lo + (hi - lo) * u \<and> lo + (hi - lo) * u \<le> hi"
proof -
  have "0 \<le> (hi - lo) * u" using assms by simp
  moreover have "(hi - lo) * u \<le> (hi - lo) * 1"
    using assms by (intro mult_left_mono) auto
  ultimately show ?thesis by simp
qed

text \<open>
  C7. For bounds with \<open>lower \<le> upper\<close> in each dimension and \<open>k \<ge> 0\<close>, \<open>random_sample\<close>
  returns an array of shape \<open>k \<times> dim\<close>; coordinate \<open>i\<close> of every row lies in the closed
  interval of dimension \<open>i\<close>. Each dimension is drawn on its own: entry \<open>(r, i)\<close> is
  computed from the bounds of dimension \<open>i\<close> and from draw number \<open>i * k + r\<close> of the
  generator, so no draw is shared between two dimensions. The generator is left
  advanced by \<open>dim * k\<close> draws.
\<close>

theorem random_sample_in_bounds:
  assumes k: "0 \<le> k"
    and b: "\<forall>b \<in> set bnds. fst b \<le> snd b"
    and u: "\<forall>j. 0 \<le> rng w j \<and> rng w j < 1"
  shows "\<exists>A. random_sample w bnds k = (w\<lparr>rng_pos := rng_pos w + length bnds * nat k\<rparr>, Inr A)
        \<and> nrows A = nat k \<and> ncols A = length bnds \<and> wf_array A
        \<and> (\<forall>r < nat k. \<forall>i < length bnds.
             rows A ! r ! i =
               fst (bnds ! i) + (snd (bnds ! i) - fst (bnds ! i)) * rng w (rng_pos w + i * nat k + r)
           \<and> fst (bnds ! i) \<le> rows A ! r ! i \<and> rows A ! r ! i \<le> snd (bnds ! i))"
proof -
  define Z where "Z = zeros (nat k) (length bnds)"
  define A where "A = snd (fill_columns w bnds 0 (nat k) Z)"
  have z1: "length (rows Z) = nat k" by (simp add: Z_def zeros_def)
  have z2: "\<forall>r < nat k. length (rows Z ! r) = length bnds" by (simp add: Z_def zeros_def)
  have z3: "0 + length bnds \<le> length bnds" by simp
  note F = fill_columns_spec [OF z1 z2 z3, of w]
  have fc: "fill_columns w bnds 0 (nat k) Z = (w\<lparr>rng_pos := rng_pos w + length bnds * nat k\<rparr>, A)"
    using F by (simp add: A_def prod_eq_iff)
  have rs: "random_sample w bnds k = (w\<lparr>rng_pos := rng_pos w + length bnds * nat k\<rparr>, Inr A)"
    using k fc by (simp add: random_sample_def Z_def)
  have nr: "nrows A = nat k" using F by (simp add: nrows_def A_def)
  have nc: "ncols A = length bnds" using F by (simp add: A_def Z_def zeros_def)
  have wf: "wf_array A" using F nc by (simp add: wf_array_def list_all_length A_def)
  have el: "\<forall>r < nat k. \<forall>i < length bnds.
             rows A ! r ! i =
               fst (bnds ! i) + (snd (bnds ! i) - fst (bnds ! i)) * rng w (rng_pos w + i * nat k + r)
           \<and> fst (bnds ! i) \<le> rows A ! r ! i \<and> rows A ! r ! i \<le> snd (bnds ! i)"
  proof (intro allI impI)
    fix r i assume r: "r < nat k" and i: "i < length bnds"
    have v: "rows A ! r ! i =
               fst (bnds ! i) + (snd (bnds ! i) - fst (bnds ! i)) * rng w (rng_pos w + i * nat k + r)"
      using F r i by (simp add: A_def)
    have "fst (bnds ! i) \<le> snd (bnds ! i)" using b i by simp
    from scaled_draw_in_interval [OF this, of "rng w (rng_pos w + i * nat k + r)"] u v
    show "rows A ! r ! i =
               fst (bnds ! i) + (snd (bnds ! i) - fst (bnds ! i)) * rng w (rng_pos w + i * nat k + r)
           \<and> fst (bnds ! i) \<le> rows A ! r ! i \<and> rows A ! r ! i \<le> snd (bnds ! i)"
      by simp
  qed
  show ?thesis using rs nr nc wf el by blast
qed

theorem random_sample_in_bounds_witness:
  "(0::int) \<le> 2 \<and> list_all (\<lambda>b. fst b \<le> snd b) bnds0
   \<and> (\<forall>j. 0 \<le> rng w0 j \<and> rng w0 j < 1)
   \<and> (\<exists>A. random_sample w0 bnds0 2 = (w0\<lparr>rng_pos := rng_pos w0 + length bnds0 * nat 2\<rparr>, Inr A)
        \<and> nrows A = nat 2 \<and> ncols A = length bnds0 \<and> wf_array A
        \<and> (\<forall>r < nat 2. \<forall>i < length bnds0.
             rows A ! r ! i =
               fst (bnds0 ! i) + (snd (bnds0 ! i) - fst (bnds0 ! i)) * rng w0 (rng_pos w0 + i * nat 2 + r)
             \<and> fst (bnds0 ! i) \<le> rows A ! r ! i
             \<and> rows A ! r ! i \<le> snd (bnds0 ! i)))"
proof -
  have h1: "(0::int) \<le> 2" by simp
  have h2: "\<forall>b \<in> set bnds0. fst b \<le> snd b" by (simp add: bnds0_def)
  have h3: "\<forall>j. 0 \<le> rng w0 j \<and> rng w0 j < 1" by (simp add: w0_def)
  have h2': "list_all (\<lambda>b. fst b \<le> snd b) bnds0" by (simp add: bnds0_def)
  show ?thesis using h1 h2' h3 random_sample_in_bounds [OF h1 h2 h3] by blast
qed



subsection \<open>\<^verbatim>\<open>bayesian_optimization\<close>: the seeding\<close>

text \<open>
  C1. The claim is that \<open>bayesian_optimization\<close> runs to completion and returns the
  history for every seed. The code does not: for every integer seed, line 48 calls the
  integer and the method leaves with an exception (the \<^verbatim>\<open>TypeError\<close> of the call,
  unless TensorFlow's seeding has raised before it), whatever the model, the
  collaborators and the process state are.
\<close>

theorem bayesian_optimization_int_seed_raises:
  "snd (bayesian_optimization env w self (PInt n)) =
     Inl (case snd (tf_set_random_seed env w (PInt n)) of Some e \<Rightarrow> e | None \<Rightarrow> TypeError)"
  by (simp add: bayesian_optimization_def py_call_def split: prod.splits option.splits)

text \<open>The scenario of the specification, seed \<open>0\<close>: nothing is sampled or evaluated.\<close>

lemma bayesian_optimization_seed_0:
  "bayesian_optimization env0 w0 self0 (PInt 0) = (w0, Inl TypeError)"
  by (simp add: bayesian_optimization_def py_call_def env0_def)


subsection \<open>\<^verbatim>\<open>get_suggestion\<close> without restarts\<close>

text \<open>
  C9. With \<^verbatim>\<open>opt_restarts = 0\<close>, \<open>get_suggestion\<close> never returns a batch, for every
  model, process state and batch size. For a batch size that \<^verbatim>\<open>np.tile\<close> accepts no
  trial runs (the process state, generator included, is returned as it was), \<open>X\<close>
  stays unset and the assertion of line 126 raises \<^verbatim>\<open>AssertionError\<close>.
\<close>

theorem get_suggestion_without_restarts:
  assumes "options self ''opt_restarts'' = Some (PInt 0)"
  shows "(\<exists>e. snd (get_suggestion env w self n_batch) = Inl e)
       \<and> (0 \<le> n_batch \<longrightarrow> get_suggestion env w self n_batch = (w, Inl AssertionError))"
  using assms by (simp add: get_suggestion_def np_tile_def bind_def getitem_def)

theorem get_suggestion_without_restarts_witness:
  "options (self0\<lparr>options := (options self0)(''opt_restarts'' \<mapsto> PInt 0)\<rparr>) ''opt_restarts'' = Some (PInt 0)
   \<and> get_suggestion env0 w0 (self0\<lparr>options := (options self0)(''opt_restarts'' \<mapsto> PInt 0)\<rparr>) 1
       = (w0, Inl AssertionError)"
  using get_suggestion_without_restarts
          [of "self0\<lparr>options := (options self0)(''opt_restarts'' \<mapsto> PInt 0)\<rparr>" env0 w0 1]
  by simp


subsection \<open>\<^verbatim>\<open>normalize\<close>\<close>






text \<open>Equal entries do not make the guard fail: it is the computed standard deviation
  that decides. With the arithmetic \<open>env_rounding\<close>, the column of three copies of
  \<open>tenth\<close> has a positive computed standard deviation, and every entry of the result is
  \<open>-1\<close>; the argument is left as it was.\<close>

lemma normalize_rounding_example:
  "normalize env_rounding self0 h_tenth 0 =
     (\<lparr>cells = (cells h_tenth)(1 := \<lparr>ncols = 1, rows = [[-1], [-1], [-1]]\<rparr>), next_addr = 2\<rparr>,
      Inr 1)"
proof -
  have ops: "np_subtract env_rounding = (\<lambda>a b. a - b)" "np_divide env_rounding = (\<lambda>a b. a / b)"
    "np_mean env_rounding [tenth, tenth, tenth] = tenth + 1 / 2 ^ 56"
    "np_std env_rounding [tenth, tenth, tenth] = 1 / 2 ^ 56"
    by (simp_all add: env_rounding_def env0_def)
  show ?thesis
    by (simp add: normalize_def self0_def opts0_def h_tenth_def Y_tenth_def alloc_def getitem_def
        column0_def ops store_write_def set_column_def gpr.defs bo.defs)
qed

text \<open>With the exact arithmetic the same column has standard deviation \<open>0\<close>, and the
  result equals the argument.\<close>

lemma normalize_exact_constant_column:
  "normalize env0 self0 h_tenth 0 =
     (\<lparr>cells = (cells h_tenth)(1 := Y_tenth), next_addr = 2\<rparr>, Inr 1)"
proof -
  have "np_std env0 [tenth, tenth, tenth] = 0" by (simp add: env0_def)
  then show ?thesis
    by (simp add: normalize_def self0_def opts0_def h_tenth_def Y_tenth_def alloc_def getitem_def
        column0_def gpr.defs bo.defs)
qed

text \<open>On an array without columns the expression \<^verbatim>\<open>Y[:, 0]\<close> raises when normalisation
  is enabled; with normalisation disabled the copy is returned.\<close>

lemma normalize_without_column:
  assumes "options self ''normalize_Y'' = Some flag" and "ncols (cells h Y) = 0" and "Y < next_addr h"
  shows "snd (normalize env self h Y) = (if truthy flag then Inl IndexError else Inr (next_addr h))"
  using assms by (simp add: normalize_def alloc_def getitem_def column0_def)


subsection \<open>\<^verbatim>\<open>BO.__init__\<close>\<close>

lemma BO_init_store:
  assumes "cells h opts ''objective'' = Some (PObjective ob)"
  shows "fst (BO_init env h opts) =
           (if cells h opts ''mean_function'' = None
            then store_write h opts ((cells h opts)(''mean_function'' \<mapsto> PNone)) else h)"
  using assms by (simp add: BO_init_def getitem_def Let_def)

lemma unpack_options_copy: "unpack_options g bnds d = Inr self \<Longrightarrow> options self = d"
  by (auto simp: unpack_options_def bind_def Let_def gpr.defs bo.defs split: sum.splits if_splits)

lemma BO_init_options:
  assumes "cells h opts ''objective'' = Some (PObjective ob)"
    and "snd (BO_init env h opts) = Inr self"
  shows "options self = cells (fst (BO_init env h opts)) opts"
proof -
  define h1 where "h1 = fst (BO_init env h opts)"
  obtain g where "unpack_options g (obj_bounds ob) (cells h1 opts) = Inr self"
    using assms unfolding h1_def
    by (auto simp: BO_init_def getitem_def Let_def bind_def split: sum.splits option.splits if_splits)
  then show ?thesis using unpack_options_copy by (simp add: h1_def)
qed

text \<open>
  C10. The constructor writes into the caller's dict. For every store and every dict
  \<open>opts\<close> of it whose \<^verbatim>\<open>'objective'\<close> is an objective (so that line 16 passes), after the
  call, whether it returns or raises later: if the dict had no \<^verbatim>\<open>'mean_function'\<close>, it
  now maps \<^verbatim>\<open>'mean_function'\<close> to \<^verbatim>\<open>None\<close>; a \<^verbatim>\<open>'mean_function'\<close> that was present is
  kept; every other entry of the dict is unchanged, and so is every other dict of the
  store. When the constructor returns, \<^verbatim>\<open>self.options\<close> holds the entries of the dict
  as written.
\<close>

theorem BO_init_mutates_options:
  assumes "cells h opts ''objective'' = Some (PObjective ob)"
  shows "(cells h opts ''mean_function'' = None
            \<longrightarrow> cells (fst (BO_init env h opts)) opts ''mean_function'' = Some PNone)
       \<and> (\<forall>v. cells h opts ''mean_function'' = Some v
            \<longrightarrow> cells (fst (BO_init env h opts)) opts ''mean_function'' = Some v)
       \<and> (\<forall>k. k \<noteq> ''mean_function''
            \<longrightarrow> cells (fst (BO_init env h opts)) opts k = cells h opts k)
       \<and> (\<forall>a. a \<noteq> opts \<longrightarrow> cells (fst (BO_init env h opts)) a = cells h a)
       \<and> next_addr (fst (BO_init env h opts)) = next_addr h
       \<and> (\<forall>self. snd (BO_init env h opts) = Inr self
            \<longrightarrow> options self = cells (fst (BO_init env h opts)) opts)"
  using BO_init_store [OF assms, of env] BO_init_options [OF assms, of env]
  by (auto simp: store_write_def)

lemma BO_init_example: "BO_init env0 hd0 0 = (store_write hd0 0 (opts0(''mean_function'' \<mapsto> PNone)), Inr self0)"
  by (simp add: BO_init_def hd0_def opts0_def getitem_def ob0_def Let_def bind_def env0_def
      unpack_options_def self0_def gpr0_def store_write_def zeros_def gpr.defs bo.defs)

theorem BO_init_mutates_options_witness:
  "cells hd0 0 ''objective'' = Some (PObjective ob0)
   \<and> cells hd0 0 ''mean_function'' = None
   \<and> cells (fst (BO_init env0 hd0 0)) 0 ''mean_function'' = Some PNone
   \<and> cells (fst (BO_init env0 hd0 0)) 0 ''iterations'' = Some (PInt 2)
   \<and> snd (BO_init env0 hd0 0) = Inr self0
   \<and> options self0 = cells (fst (BO_init env0 hd0 0)) 0"
proof -
  have a: "cells hd0 0 ''objective'' = Some (PObjective ob0)" by (simp add: hd0_def opts0_def)
  have b: "cells hd0 0 ''mean_function'' = None" by (simp add: hd0_def opts0_def)
  have c: "snd (BO_init env0 hd0 0) = Inr self0" by (simp add: BO_init_example)
  have d: "cells hd0 0 ''iterations'' = Some (PInt 2)" by (simp add: hd0_def opts0_def)
  note T = BO_init_mutates_options [OF a, of env0]
  have "cells (fst (BO_init env0 hd0 0)) 0 ''mean_function'' = Some PNone" using T b by blast
  moreover have "cells (fst (BO_init env0 hd0 0)) 0 ''iterations'' = Some (PInt 2)"
    using T d by simp
  moreover have "options self0 = cells (fst (BO_init env0 hd0 0)) 0" using T c by blast
  ultimately show ?thesis using a b c by blast
qed


text \<open>
  C8, as stated, fails: the bundle \<open>opts0\<close> without its \<^verbatim>\<open>'noise'\<close> entry holds every other
  option, and the constructor raises \<^verbatim>\<open>KeyError\<close> at line 36.
\<close>

theorem BO_init_noise_omitted_counterexample:
  "cells hd_no_noise 0 ''noise'' = None \<and> snd (BO_init env0 hd_no_noise 0) = Inl (KeyError ''noise'')"
  by (simp add: BO_init_def hd_no_noise_def opts0_def getitem_def ob0_def Let_def bind_def env0_def
      unpack_options_def gpr0_def store_write_def zeros_def gpr.defs bo.defs)

text \<open>
  C8, amended. The value of \<^verbatim>\<open>'noise'\<close> is optional, the key is not. For a bundle
  holding the options the constructor reads, and a \<^verbatim>\<open>GPR\<close> constructor that returns
  \<open>g\<close>: with \<^verbatim>\<open>'noise'\<close> mapped to \<^verbatim>\<open>None\<close> the construction succeeds and the likelihood
  variance and its \<^verbatim>\<open>fixed\<close> flag are those of \<open>g\<close>; with any other value the variance is
  set to it and flagged fixed; without the key the constructor raises
  \<^verbatim>\<open>KeyError\<close>.
\<close>

theorem BO_init_noise:
  assumes ob: "cells h opts ''objective'' = Some (PObjective ob)"
    and k: "cells h opts ''kernel'' = Some k"
    and its: "cells h opts ''iterations'' = Some its"
    and bs: "cells h opts ''batch_size'' = Some bs"
    and isz: "cells h opts ''initial_size'' = Some isz"
    and hs: "cells h opts ''hessian'' = Some hs"
    and g: "gpr_init env (zeros 0 (length (obj_bounds ob))) (zeros 0 (length (obj_bounds ob))) k
              (case cells h opts ''mean_function'' of None \<Rightarrow> PNone | Some v \<Rightarrow> v) = Inr g"
  shows "case cells h opts ''noise'' of
           None \<Rightarrow> snd (BO_init env h opts) = Inl (KeyError ''noise'')
         | Some nz \<Rightarrow>
             (\<exists>self. snd (BO_init env h opts) = Inr self
                \<and> (if is_none nz
                    then likelihood_variance self = likelihood_variance g
                       \<and> likelihood_variance_fixed self = likelihood_variance_fixed g
                    else likelihood_variance self = nz \<and> likelihood_variance_fixed self = True))"
proof (cases "cells h opts ''noise''")
  case None
  then show ?thesis using assms
    by (simp add: BO_init_def getitem_def Let_def bind_def unpack_options_def store_write_def
          gpr.defs bo.defs split: option.splits)
next
  case (Some nz)
  show ?thesis
  proof (cases "is_none nz")
    case True
    then show ?thesis using assms Some
      by (simp add: BO_init_def getitem_def Let_def bind_def unpack_options_def store_write_def
            gpr.defs bo.defs split: option.splits)
  next
    case False
    then show ?thesis using assms Some
      by (simp add: BO_init_def getitem_def Let_def bind_def unpack_options_def store_write_def
            gpr.defs bo.defs split: option.splits)
  qed
qed


theorem BO_init_noise_witness:
  "cells hd0 0 ''objective'' = Some (PObjective ob0) \<and> cells hd0 0 ''noise'' = Some PNone
   \<and> (\<exists>self. snd (BO_init env0 hd0 0) = Inr self
          \<and> likelihood_variance self = PFloat 1 \<and> likelihood_variance_fixed self = False)"
  using BO_init_noise [of hd0 0 ob0 "PKernel 0" "PInt 2" "PInt 1" "PInt 3" "PBool False" env0 gpr0]
  by (simp add: hd0_def opts0_def env0_def ob0_def gpr0_def zeros_def)


subsection \<open>Best-of-N selection on a list of candidates\<close>

lemma first_minimum_le: "first_minimum cs r \<Longrightarrow> list_all (\<lambda>q. snd r \<le> snd q) cs"
  by (induction cs) (auto simp: list_all_iff)

lemma first_minimum_mem: "first_minimum cs r \<Longrightarrow> r \<in> set cs"
  by (induction cs) auto

lemma first_minimum_unique: "first_minimum cs r \<Longrightarrow> first_minimum cs r' \<Longrightarrow> r = r'"
proof (induction cs)
  case Nil
  then show ?case by simp
next
  case (Cons c cs)
  have le: "\<And>a b. first_minimum cs a \<Longrightarrow> b \<in> set cs \<Longrightarrow> snd a \<le> snd b"
    using first_minimum_le by (fastforce simp: list_all_iff)
  consider "c = r" "c = r'" | "c = r" "snd r' < snd c" "first_minimum cs r'"
    | "c = r'" "snd r < snd c" "first_minimum cs r"
    | "first_minimum cs r" "first_minimum cs r'"
    using Cons.prems by auto
  then show ?case
  proof cases
    case 1
    then show ?thesis by simp
  next
    case 2
    have "list_all (\<lambda>q. snd r \<le> snd q) cs" using Cons.prems(1) 2 by auto
    then have "snd r \<le> snd r'" using first_minimum_mem [OF 2(3)] by (simp add: list_all_iff)
    then show ?thesis using 2 by simp
  next
    case 3
    have "list_all (\<lambda>q. snd r' \<le> snd q) cs" using Cons.prems(2) 3 by auto
    then have "snd r' \<le> snd r" using first_minimum_mem [OF 3(3)] by (simp add: list_all_iff)
    then show ?thesis using 3 by simp
  next
    case 4
    then show ?thesis using Cons.IH by simp
  qed
qed

lemma pick_Some: "\<exists>r. pick (Some b) cs = Some r \<and> first_minimum (b # cs) r"
proof (induction cs arbitrary: b)
  case Nil
  show ?case by simp
next
  case (Cons c cs)
  show ?case
  proof (cases "snd c < snd b")
    case True
    from Cons.IH [of c] obtain r where r: "pick (Some c) cs = Some r" "first_minimum (c # cs) r"
      by blast
    have "snd r \<le> snd c" using first_minimum_le [OF r(2)] by simp
    then have "first_minimum (b # c # cs) r" using True r(2) by simp
    then show ?thesis using True r(1) by simp
  next
    case False
    from Cons.IH [of b] obtain r where r: "pick (Some b) cs = Some r" "first_minimum (b # cs) r"
      by blast
    have "first_minimum (b # c # cs) r" using False r(2) by auto
    then show ?thesis using False r(1) by simp
  qed
qed

lemma pick_None: "pick None cs = (case cs of [] \<Rightarrow> None | c # cs' \<Rightarrow> pick (Some c) cs')"
  by (cases cs) simp_all

lemma pick_None_first_minimum:
  "cs \<noteq> [] \<Longrightarrow> \<exists>r. pick None cs = Some r \<and> first_minimum cs r"
  using pick_Some by (cases cs) auto

lemma pick_append: "pick b (cs @ ds) = pick (pick b cs) ds"
proof (induction cs arbitrary: b)
  case Nil
  show ?case by simp
next
  case (Cons c cs)
  then show ?case by (cases b) simp_all
qed


subsection \<open>The loop of \<^verbatim>\<open>get_suggestion\<close> and its trials\<close>

lemma random_sample_ok:
  "0 \<le> k \<Longrightarrow> \<exists>w1 A. random_sample w bnds k = (w1, Inr A)"
  by (simp add: random_sample_def split: prod.splits)

lemma update_best_paired:
  assumes "paired L"
  shows "\<exists>L'. update_best L X0 y0 = Inr L' \<and> paired L'
              \<and> incumbent L' = pick (incumbent L) [(X0, y0)]"
  using assms
  by (cases "X_var L"; cases "y_var L") (auto simp: update_best_def paired_def incumbent_def)

lemma suggestion_loop_outcomes:
  assumes "0 \<le> n_batch" and "paired L"
    and "Inl KeyboardInterrupt \<notin> set (trial_outcomes env self n_batch bt js w)"
  shows "\<exists>w' L'. suggestion_loop env self n_batch bt js (w, L) = ((w', L'), None)
           \<and> paired L'
           \<and> incumbent L' = pick (incumbent L) (successes (trial_outcomes env self n_batch bt js w))
           \<and> length (trial_outcomes env self n_batch bt js w) = length js"
  using assms(2,3)
proof (induction js arbitrary: w L)
  case Nil
  then show ?case by simp
next
  case (Cons j js)
  obtain w1 A where rs: "random_sample w (bounds self) n_batch = (w1, Inr A)"
    using random_sample_ok [OF assms(1)] by blast
  obtain w2 r where sc: "solve_call env w1 self A bt = (w2, r)" by (cases "solve_call env w1 self A bt")
  show ?case
  proof (cases r)
    case (Inl e)
    have ne: "e \<noteq> KeyboardInterrupt" using Cons.prems(2) rs sc Inl by auto
    have os: "trial_outcomes env self n_batch bt (j # js) w
                = Inl e # trial_outcomes env self n_batch bt js (w2\<lparr>stderr := stderr w2 @ [j]\<rparr>)"
      using rs sc Inl ne by simp
    have it: "suggestion_iteration env self n_batch bt j (w, L) = ((w2\<lparr>stderr := stderr w2 @ [j]\<rparr>, L), None)"
      using rs sc Inl ne by (simp add: suggestion_iteration_def suggestion_try_def)
    have "Inl KeyboardInterrupt \<notin> set (trial_outcomes env self n_batch bt js (w2\<lparr>stderr := stderr w2 @ [j]\<rparr>))"
      using Cons.prems(2) unfolding os by simp
    from Cons.IH [OF Cons.prems(1) this] show ?thesis using it os by simp
  next
    case (Inr c)
    obtain X0 y0 where c: "c = (X0, y0)" by (cases c)
    obtain L1 where L1: "update_best L X0 y0 = Inr L1" "paired L1"
        "incumbent L1 = pick (incumbent L) [(X0, y0)]"
      using update_best_paired [OF Cons.prems(1)] by blast
    have os: "trial_outcomes env self n_batch bt (j # js) w
                = Inr c # trial_outcomes env self n_batch bt js w2"
      using rs sc Inr by simp
    have it: "suggestion_iteration env self n_batch bt j (w, L) = ((w2, L1), None)"
      using rs sc Inr c L1(1) by (simp add: suggestion_iteration_def suggestion_try_def)
    have "Inl KeyboardInterrupt \<notin> set (trial_outcomes env self n_batch bt js w2)"
      using Cons.prems(2) unfolding os by simp
    from Cons.IH [OF L1(2) this] obtain w' L' where
      l: "suggestion_loop env self n_batch bt js (w2, L1) = ((w', L'), None)" "paired L'"
         "incumbent L' = pick (incumbent L1) (successes (trial_outcomes env self n_batch bt js w2))"
         "length (trial_outcomes env self n_batch bt js w2) = length js"
      by blast
    have "pick (incumbent L1) (successes (trial_outcomes env self n_batch bt js w2))
            = pick (incumbent L) (successes (trial_outcomes env self n_batch bt (j # js) w))"
      using os c L1(3) by (cases "incumbent L") simp_all
    then show ?thesis using it l os by simp
  qed
qed

lemma suggestion_loop_interrupted:
  assumes "0 \<le> n_batch" and "paired L"
    and "Inl KeyboardInterrupt \<in> set (trial_outcomes env self n_batch bt js w)"
  shows "snd (suggestion_loop env self n_batch bt js (w, L)) = Some KeyboardInterrupt"
  using assms(2,3)
proof (induction js arbitrary: w L)
  case Nil
  then show ?case by simp
next
  case (Cons j js)
  obtain w1 A where rs: "random_sample w (bounds self) n_batch = (w1, Inr A)"
    using random_sample_ok [OF assms(1)] by blast
  obtain w2 r where sc: "solve_call env w1 self A bt = (w2, r)" by (cases "solve_call env w1 self A bt")
  show ?case
  proof (cases r)
    case (Inl e)
    show ?thesis
    proof (cases "e = KeyboardInterrupt")
      case True
      then show ?thesis using rs sc Inl by (simp add: suggestion_iteration_def suggestion_try_def)
    next
      case False
      have os: "trial_outcomes env self n_batch bt (j # js) w
                = Inl e # trial_outcomes env self n_batch bt js (w2\<lparr>stderr := stderr w2 @ [j]\<rparr>)"
        using rs sc Inl False by simp
      have it: "suggestion_iteration env self n_batch bt j (w, L) = ((w2\<lparr>stderr := stderr w2 @ [j]\<rparr>, L), None)"
        using rs sc Inl False by (simp add: suggestion_iteration_def suggestion_try_def)
      have "Inl KeyboardInterrupt \<in> set (trial_outcomes env self n_batch bt js (w2\<lparr>stderr := stderr w2 @ [j]\<rparr>))"
        using Cons.prems(2) False unfolding os by simp
      from Cons.IH [OF Cons.prems(1) this] show ?thesis using it by simp
    qed
  next
    case (Inr c)
    obtain X0 y0 where c: "c = (X0, y0)" by (cases c)
    have os: "trial_outcomes env self n_batch bt (j # js) w
                = Inr c # trial_outcomes env self n_batch bt js w2"
      using rs sc Inr by simp
    have mem: "Inl KeyboardInterrupt \<in> set (trial_outcomes env self n_batch bt js w2)"
      using Cons.prems(2) unfolding os by simp
    obtain L1 where L1: "update_best L X0 y0 = Inr L1" "paired L1"
      using update_best_paired [OF Cons.prems(1)] by blast
    have it: "suggestion_iteration env self n_batch bt j (w, L) = ((w2, L1), None)"
      using rs sc Inr c L1(1) by (simp add: suggestion_iteration_def suggestion_try_def)
    from Cons.IH [OF L1(2) mem] show ?thesis using it by simp
  qed
qed


subsection \<open>\<^verbatim>\<open>get_suggestion\<close>: failed trials\<close>

lemma successes_Nil_iff: "successes os = [] \<longleftrightarrow> list_all isl os"
  by (induction os rule: successes.induct) simp_all

lemma pick_mem: "pick None cs = Some r \<Longrightarrow> r \<in> set cs"
  using pick_None_first_minimum [of cs] first_minimum_mem [of cs] by (cases cs) auto

lemma get_suggestion_result:
  assumes nb: "0 \<le> n_batch" and r: "options self ''opt_restarts'' = Some (PInt n)"
    and os: "os = trial_outcomes env self n_batch (concat (replicate (nat n_batch) (bounds self)))
                   [0..<nat n] w"
  shows "Inl KeyboardInterrupt \<in> set os
           \<Longrightarrow> snd (get_suggestion env w self n_batch) = Inl KeyboardInterrupt"
    and "Inl KeyboardInterrupt \<notin> set os
           \<Longrightarrow> length os = nat n
             \<and> snd (get_suggestion env w self n_batch)
                 = (case pick None (successes os) of
                      None \<Rightarrow> Inl AssertionError | Some c \<Rightarrow> Inr (fst c))"
proof -
  define bt where "bt = concat (replicate (nat n_batch) (bounds self))"
  define L0 where "L0 = \<lparr>X_var = None, y_var = None\<rparr>"
  have p0: "paired L0" and i0: "incumbent L0 = None" by (simp_all add: L0_def paired_def incumbent_def)
  have gs: "get_suggestion env w self n_batch =
              (case suggestion_loop env self n_batch bt [0..<nat n] (w, L0) of
                 ((w', L), Some e) \<Rightarrow> (w', Inl e)
               | ((w', L), None) \<Rightarrow>
                    (case X_var L of None \<Rightarrow> (w', Inl AssertionError) | Some X \<Rightarrow> (w', Inr X)))"
    using nb r by (simp add: get_suggestion_def np_tile_def bind_def getitem_def bt_def L0_def)
  {
    assume "Inl KeyboardInterrupt \<in> set os"
    then have "snd (suggestion_loop env self n_batch bt [0..<nat n] (w, L0)) = Some KeyboardInterrupt"
      using suggestion_loop_interrupted [OF nb p0] os bt_def by simp
    then show "snd (get_suggestion env w self n_batch) = Inl KeyboardInterrupt"
      unfolding gs by (auto split: prod.splits option.splits)
  }
  {
    assume "Inl KeyboardInterrupt \<notin> set os"
    then have "Inl KeyboardInterrupt \<notin> set (trial_outcomes env self n_batch bt [0..<nat n] w)"
      using os bt_def by simp
    from suggestion_loop_outcomes [OF nb p0 this] obtain w' L' where
      l: "suggestion_loop env self n_batch bt [0..<nat n] (w, L0) = ((w', L'), None)" "paired L'"
         "incumbent L' = pick (incumbent L0) (successes (trial_outcomes env self n_batch bt [0..<nat n] w))"
         "length (trial_outcomes env self n_batch bt [0..<nat n] w) = length [0..<nat n]"
      by blast
    have inc: "incumbent L' = pick None (successes os)" using l(3) i0 os bt_def by simp
    have len: "length os = nat n" using l(4) os bt_def by simp
    have "snd (get_suggestion env w self n_batch)
            = (case incumbent L' of None \<Rightarrow> Inl AssertionError | Some c \<Rightarrow> Inr (fst c))"
      unfolding gs using l(1,2)
      by (cases "X_var L'"; cases "y_var L'") (auto simp: incumbent_def paired_def)
    then show "length os = nat n
             \<and> snd (get_suggestion env w self n_batch)
                 = (case pick None (successes os) of
                      None \<Rightarrow> Inl AssertionError | Some c \<Rightarrow> Inr (fst c))"
      using inc len by simp
  }
qed

text \<open>
  C4. Let \<open>os\<close> be the outcomes of the trials of one call of \<open>get_suggestion\<close> with a
  batch size that \<^verbatim>\<open>np.tile\<close> accepts. If every trial fails, the call raises instead of
  returning a batch. Without a \<^verbatim>\<open>KeyboardInterrupt\<close> among the outcomes: all \<open>n\<close>
  trials run (a failed trial does not end the loop); if every trial failed the
  exception is the \<^verbatim>\<open>AssertionError\<close> of line 126; if some trial succeeded a batch is
  returned, and it is the solution of a successful trial, so a failed trial contributes
  no candidate. A \<^verbatim>\<open>KeyboardInterrupt\<close> raised in a trial leaves the method.
\<close>

theorem get_suggestion_trial_failures:
  assumes nb: "0 \<le> n_batch" and r: "options self ''opt_restarts'' = Some (PInt n)"
    and os: "os = trial_outcomes env self n_batch (concat (replicate (nat n_batch) (bounds self)))
                   [0..<nat n] w"
  shows "(list_all isl os \<longrightarrow> (\<exists>e. snd (get_suggestion env w self n_batch) = Inl e))
       \<and> (Inl KeyboardInterrupt \<in> set os
            \<longrightarrow> snd (get_suggestion env w self n_batch) = Inl KeyboardInterrupt)
       \<and> (Inl KeyboardInterrupt \<notin> set os
            \<longrightarrow> length os = nat n
              \<and> (list_all isl os \<longrightarrow> snd (get_suggestion env w self n_batch) = Inl AssertionError)
              \<and> (\<not> list_all isl os
                   \<longrightarrow> (\<exists>X y. snd (get_suggestion env w self n_batch) = Inr X
                          \<and> (X, y) \<in> set (successes os))))"
proof -
  note R = get_suggestion_result [OF nb r os]
  have a: "Inl KeyboardInterrupt \<in> set os
            \<longrightarrow> snd (get_suggestion env w self n_batch) = Inl KeyboardInterrupt"
    using R(1) by blast
  have b: "Inl KeyboardInterrupt \<notin> set os
            \<longrightarrow> length os = nat n
              \<and> (list_all isl os \<longrightarrow> snd (get_suggestion env w self n_batch) = Inl AssertionError)
              \<and> (\<not> list_all isl os
                   \<longrightarrow> (\<exists>X y. snd (get_suggestion env w self n_batch) = Inr X
                          \<and> (X, y) \<in> set (successes os)))"
  proof (intro impI)
    assume k: "Inl KeyboardInterrupt \<notin> set os"
    note S = R(2) [OF k]
    have 1: "list_all isl os \<longrightarrow> snd (get_suggestion env w self n_batch) = Inl AssertionError"
    proof
      assume "list_all isl os"
      then have "successes os = []" using successes_Nil_iff by blast
      then show "snd (get_suggestion env w self n_batch) = Inl AssertionError" using S by simp
    qed
    have 2: "\<not> list_all isl os
                   \<longrightarrow> (\<exists>X y. snd (get_suggestion env w self n_batch) = Inr X
                          \<and> (X, y) \<in> set (successes os))"
    proof
      assume "\<not> list_all isl os"
      then have "successes os \<noteq> []" using successes_Nil_iff [of os] by simp
      then obtain c where c: "pick None (successes os) = Some c"
        using pick_None_first_minimum by blast
      then have m: "c \<in> set (successes os)" by (rule pick_mem)
      obtain X y where xy: "c = (X, y)" by (cases c)
      have "snd (get_suggestion env w self n_batch) = Inr X" using S c xy by simp
      then show "\<exists>X y. snd (get_suggestion env w self n_batch) = Inr X \<and> (X, y) \<in> set (successes os)"
        using m xy by blast
    qed
    show "length os = nat n
              \<and> (list_all isl os \<longrightarrow> snd (get_suggestion env w self n_batch) = Inl AssertionError)
              \<and> (\<not> list_all isl os
                   \<longrightarrow> (\<exists>X y. snd (get_suggestion env w self n_batch) = Inr X
                          \<and> (X, y) \<in> set (successes os)))"
      using S 1 2 by blast
  qed
  have c: "list_all isl os \<longrightarrow> (\<exists>e. snd (get_suggestion env w self n_batch) = Inl e)"
    using a b by blast
  show ?thesis using a b c by blast
qed

lemma self0_fields: "bounds self0 = [(0, 1)]" "options self0 ''opt_restarts'' = Some (PInt 2)"
  "options self0 ''nl_solver'' = Some (PStr ''lbfgs'')" "hessian self0 = PBool False"
  by (simp_all add: self0_def opts0_def gpr.defs bo.defs)

lemma flaky_outcomes:
  "trial_outcomes env_flaky self0 1 (concat (replicate (nat 1) (bounds self0))) [0..<nat 2] w0
     = [Inl (ExternalError 0), Inr (A_half, 0)]"
  by (simp add: upt_rec [of 0] upt_rec [of "Suc 0"] self0_fields solve_call_def getitem_def
        env_flaky_def env0_def w0_def random_sample_def uniform_def zeros_def set_column_def
        A_half_def)

theorem get_suggestion_trial_failures_witness:
  "(0::int) \<le> 1 \<and> options self0 ''opt_restarts'' = Some (PInt 2)
   \<and> trial_outcomes env_flaky self0 1 (concat (replicate (nat 1) (bounds self0))) [0..<nat 2] w0
        = [Inl (ExternalError 0), Inr (A_half, 0)]
   \<and> snd (get_suggestion env_flaky w0 self0 1) = Inr A_half"
proof -
  have a: "(0::int) \<le> 1" by simp
  have b: "options self0 ''opt_restarts'' = Some (PInt 2)" by (simp add: self0_fields)
  note T = get_suggestion_trial_failures [OF a b flaky_outcomes [symmetric]]
  have "\<exists>X y. snd (get_suggestion env_flaky w0 self0 1) = Inr X
           \<and> (X, y) \<in> set (successes [Inl (ExternalError 0), Inr (A_half, 0)])"
    using T by simp
  then have "snd (get_suggestion env_flaky w0 self0 1) = Inr A_half" by simp
  then show ?thesis using a b flaky_outcomes by blast
qed

text \<open>The solver stub that always raises: both trials print their message and the
  assertion fails.\<close>

lemma failing_outcomes:
  "trial_outcomes env_failing self0 1 (concat (replicate (nat 1) (bounds self0))) [0..<nat 2] w0
     = [Inl (ExternalError 0), Inl (ExternalError 0)]"
  by (simp add: upt_rec [of 0] upt_rec [of "Suc 0"] self0_fields solve_call_def getitem_def
        env_failing_def env0_def w0_def random_sample_def uniform_def zeros_def set_column_def)

lemma get_suggestion_all_trials_fail:
  "get_suggestion env_failing w0 self0 1 = (w0\<lparr>rng_pos := 2, stderr := [0, 1]\<rparr>, Inl AssertionError)"
  by (simp add: get_suggestion_def np_tile_def bind_def suggestion_iteration_def suggestion_try_def
        upt_rec [of 0] upt_rec [of "Suc 0"] self0_fields solve_call_def getitem_def
        env_failing_def env0_def w0_def random_sample_def uniform_def zeros_def set_column_def)


subsection \<open>The loop of \<^verbatim>\<open>optimize_restarts\<close> and its trials\<close>

lemma restart_try_local:
  assumes "restart_try env obj w self None = (w', self', x0, r)"
  shows "restart_try env obj w self x = (w', self', (case x0 of None \<Rightarrow> x | Some v \<Rightarrow> Some v), r)"
    and "r = Inr v \<Longrightarrow> x0 = Some (free_state self') \<and> obj (free_state self') = Inr v"
  using assms
  by (auto simp: restart_try_def split: prod.splits option.splits)

lemma restart_iteration_failed:
  assumes "restart_try env obj w self (x_var L) = (w', self', x', Inl e)" and "e \<noteq> KeyboardInterrupt"
  shows "restart_iteration env obj (w, self, L) = ((w', self', L\<lparr>x_var := x'\<rparr>), None)"
  using assms by (simp add: restart_iteration_def)

lemma restart_iteration_succeeded:
  assumes "restart_try env obj w self (x_var L) = (w', self', Some xv, Inr v)"
    and "val_min L = Fin vm"
  shows "restart_iteration env obj (w, self, L) =
           ((w', self', if v < vm then \<lparr>par_min = xv, val_min = Fin v, x_var = Some xv\<rparr>
                        else L\<lparr>x_var := Some xv\<rparr>), None)"
  using assms by (simp add: restart_iteration_def)

lemma restart_loop_outcomes:
  assumes "val_min L = Fin vm"
    and "Inl KeyboardInterrupt \<notin> set (restart_outcomes env obj n w self)"
  shows "\<exists>w' self' L' r. restart_loop env obj n (w, self, L) = ((w', self', L'), None)
           \<and> pick (Some (par_min L, vm)) (successes (restart_outcomes env obj n w self)) = Some r
           \<and> par_min L' = fst r \<and> val_min L' = Fin (snd r)
           \<and> length (restart_outcomes env obj n w self) = n"
  using assms
proof (induction n arbitrary: w self L vm)
  case 0
  then show ?case by simp
next
  case (Suc n)
  obtain w1 self1 x0 r where t: "restart_try env obj w self None = (w1, self1, x0, r)"
    by (cases "restart_try env obj w self None") auto
  define x' where "x' = (case x0 of None \<Rightarrow> x_var L | Some v \<Rightarrow> Some v)"
  have tx: "restart_try env obj w self (x_var L) = (w1, self1, x', r)"
    using restart_try_local(1) [OF t] by (simp add: x'_def)
  show ?case
  proof (cases r)
    case (Inl e)
    have ne: "e \<noteq> KeyboardInterrupt" using Suc.prems(2) t Inl by auto
    have os: "restart_outcomes env obj (Suc n) w self = Inl e # restart_outcomes env obj n w1 self1"
      using t Inl ne by simp
    have it: "restart_iteration env obj (w, self, L) = ((w1, self1, L\<lparr>x_var := x'\<rparr>), None)"
      using restart_iteration_failed tx Inl ne by simp
    have k: "Inl KeyboardInterrupt \<notin> set (restart_outcomes env obj n w1 self1)"
      using Suc.prems(2) unfolding os by simp
    have v: "val_min (L\<lparr>x_var := x'\<rparr>) = Fin vm" using Suc.prems(1) by simp
    from Suc.IH [OF v k] show ?thesis using it os by simp
  next
    case (Inr v)
    have x0: "x0 = Some (free_state self1)" using restart_try_local(2) [OF t] Inr by simp
    then have x': "x' = Some (free_state self1)" by (simp add: x'_def)
    have os: "restart_outcomes env obj (Suc n) w self
                = Inr (free_state self1, v) # restart_outcomes env obj n w1 self1"
      using t Inr by simp
    have k: "Inl KeyboardInterrupt \<notin> set (restart_outcomes env obj n w1 self1)"
      using Suc.prems(2) unfolding os by simp
    define L1 where "L1 = (if v < vm then \<lparr>par_min = free_state self1, val_min = Fin v,
                                             x_var = Some (free_state self1)\<rparr>
                           else L\<lparr>x_var := Some (free_state self1)\<rparr>)"
    have it: "restart_iteration env obj (w, self, L) = ((w1, self1, L1), None)"
      using restart_iteration_succeeded [OF _ Suc.prems(1)] tx Inr x' by (simp add: L1_def)
    have v1: "val_min L1 = Fin (if v < vm then v else vm)" using Suc.prems(1) by (simp add: L1_def)
    have p1: "(par_min L1, if v < vm then v else vm)
                = (if snd (free_state self1, v) < snd (par_min L, vm) then (free_state self1, v)
                   else (par_min L, vm))"
      by (simp add: L1_def)
    from Suc.IH [OF v1 k] show ?thesis using it os p1 by simp
  qed
qed

lemma restart_outcomes_objective:
  "(x, v) \<in> set (successes (restart_outcomes env obj n w self)) \<Longrightarrow> obj x = Inr v"
proof (induction n arbitrary: w self)
  case 0
  then show ?case by simp
next
  case (Suc n)
  obtain w1 self1 x0 r where t: "restart_try env obj w self None = (w1, self1, x0, r)"
    by (cases "restart_try env obj w self None") auto
  show ?case
  proof (cases r)
    case (Inl e)
    then show ?thesis using Suc t by (auto split: if_splits)
  next
    case (Inr v')
    then show ?thesis using Suc t restart_try_local(2) [OF t] by auto
  qed
qed

lemma optimize_restarts_result:
  assumes prep: "recompile_if_needed env w self = (w1, self1, None)"
    and v0: "objective_of env self1 (free_state self1) = Inr v0"
    and os: "os = restart_outcomes env (objective_of env self1) (nat n) w1 self1"
    and nki: "Inl KeyboardInterrupt \<notin> set os"
  shows "\<exists>w2 self2 v. optimize_restarts env w self (PInt n) = (w2, self2, None)
           \<and> first_minimum ((free_state self1, v0) # successes os) (free_state self2, v)
           \<and> objective_of env self1 (free_state self2) = Inr v
           \<and> length os = nat n"
proof -
  define L0 where "L0 = \<lparr>par_min = free_state self1, val_min = Fin v0, x_var = None\<rparr>"
  have a: "val_min L0 = Fin v0" by (simp add: L0_def)
  from restart_loop_outcomes [OF a nki [unfolded os]] obtain w2 s2 L' r where
    l: "restart_loop env (objective_of env self1) (nat n) (w1, self1, L0) = ((w2, s2, L'), None)"
       "pick (Some (par_min L0, v0)) (successes os) = Some r"
       "par_min L' = fst r" "length os = nat n"
    using os by blast
  obtain r' where r': "pick (Some (free_state self1, v0)) (successes os) = Some r'"
      "first_minimum ((free_state self1, v0) # successes os) r'"
    using pick_Some by blast
  have "r' = r" using r'(1) l(2) by (simp add: L0_def)
  then have fm: "first_minimum ((free_state self1, v0) # successes os) r" using r'(2) by blast
  have "r \<in> set ((free_state self1, v0) # successes os)" using fm by (rule first_minimum_mem)
  then have ob: "objective_of env self1 (fst r) = Inr (snd r)"
    using v0 restart_outcomes_objective [of "fst r" "snd r" env "objective_of env self1" "nat n" w1 self1] os
    by auto
  have "optimize_restarts env w self (PInt n) = (w2, s2\<lparr>free_state := fst r\<rparr>, None)"
    using prep v0 l(1,3) by (simp add: optimize_restarts_def L0_def)
  then show ?thesis using fm ob l(4) by auto
qed


subsection \<open>\<^verbatim>\<open>optimize_restarts\<close>: never worse than the entry state\<close>

lemma first_minimum_head_le: "first_minimum (b # cs) r \<Longrightarrow> snd r \<le> snd b"
  using first_minimum_le [of "b # cs" r] by simp

text \<open>
  C2. Let the lazy compilation of lines 146 and 147 leave the model \<open>s1\<close>, let \<open>v0\<close> be
  the objective of its parameters, and let no restart be interrupted from the keyboard.
  Then, for every restart count \<open>n\<close>, \<open>optimize_restarts\<close> returns, and the objective
  (the function \<^verbatim>\<open>obj\<close> read at line 148) of the parameters it leaves is at most \<open>v0\<close>.
  For \<open>n \<le> 0\<close> the model and the process state are those left by the compilation. All
  \<open>n\<close> restarts run, whatever they raise. In every iteration whose trial raises
  another exception than \<^verbatim>\<open>KeyboardInterrupt\<close>, the locals \<^verbatim>\<open>par_min\<close> and \<^verbatim>\<open>val_min\<close>
  are unchanged and the loop goes on.
\<close>

theorem optimize_restarts_never_worse:
  assumes prep: "recompile_if_needed env w self = (w1, s1, None)"
    and v0: "objective_of env s1 (free_state s1) = Inr v0"
    and os: "os = restart_outcomes env (objective_of env s1) (nat n) w1 s1"
    and nki: "Inl KeyboardInterrupt \<notin> set os"
  shows "(\<exists>w2 s2 v. optimize_restarts env w self (PInt n) = (w2, s2, None)
            \<and> objective_of env s1 (free_state s2) = Inr v \<and> v \<le> v0
            \<and> (n \<le> 0 \<longrightarrow> w2 = w1 \<and> s2 = s1))
       \<and> length os = nat n
       \<and> (\<forall>obj w' s' L a b x' e.
             restart_try env obj w' s' (x_var L) = (a, b, x', Inl e) \<and> e \<noteq> KeyboardInterrupt
             \<longrightarrow> (\<exists>L'. restart_iteration env obj (w', s', L) = ((a, b, L'), None)
                      \<and> par_min L' = par_min L \<and> val_min L' = val_min L))"
proof -
  from optimize_restarts_result [OF prep v0 os nki] obtain w2 s2 v where
    r: "optimize_restarts env w self (PInt n) = (w2, s2, None)"
       "first_minimum ((free_state s1, v0) # successes os) (free_state s2, v)"
       "objective_of env s1 (free_state s2) = Inr v" "length os = nat n"
    by blast
  have le: "v \<le> v0" using first_minimum_head_le [OF r(2)] by simp
  have z: "n \<le> 0 \<longrightarrow> w2 = w1 \<and> s2 = s1"
  proof
    assume "n \<le> 0"
    then have "optimize_restarts env w self (PInt n) = (w1, s1, None)"
      using prep v0 by (simp add: optimize_restarts_def)
    then show "w2 = w1 \<and> s2 = s1" using r(1) by simp
  qed
  have st: "\<forall>obj w' s' L a b x' e.
             restart_try env obj w' s' (x_var L) = (a, b, x', Inl e) \<and> e \<noteq> KeyboardInterrupt
             \<longrightarrow> (\<exists>L'. restart_iteration env obj (w', s', L) = ((a, b, L'), None)
                      \<and> par_min L' = par_min L \<and> val_min L' = val_min L)"
    using restart_iteration_failed by fastforce
  show ?thesis using r(1,3,4) le z st by blast
qed

lemma self0_compiled_fields: "free_state self0_compiled = [1]" "needs_recompile self0_compiled = False"
  "needs_recompile self0 = True"
  by (simp_all add: self0_compiled_def self0_def gpr0_def gpr.defs bo.defs)

lemma prep0: "recompile_if_needed env0 w0 self0 = (w0, self0_compiled, None)"
  by (simp add: recompile_if_needed_def self0_compiled_fields env0_def self0_compiled_def)

lemma outcomes0:
  "restart_outcomes env0 (objective_of env0 self0_compiled) (nat 1) w0 self0_compiled = [Inr ([1 / 4], 1 / 16)]"
  by (simp add: restart_try_def env0_def w0_def power2_eq_square)

lemma optimize_restarts_example:
  "optimize_restarts env0 w0 self0 (PInt 1)
     = (w0\<lparr>rng_pos := 1\<rparr>, self0_compiled\<lparr>free_state := [1 / 4]\<rparr>, None)"
  by (simp add: optimize_restarts_def recompile_if_needed_def self0_compiled_def self0_def gpr0_def
        gpr.defs bo.defs restart_iteration_def restart_try_def env0_def w0_def power2_eq_square)

theorem optimize_restarts_never_worse_witness:
  "recompile_if_needed env0 w0 self0 = (w0, self0_compiled, None)
   \<and> objective_of env0 self0_compiled (free_state self0_compiled) = Inr 1
   \<and> restart_outcomes env0 (objective_of env0 self0_compiled) (nat 1) w0 self0_compiled = [Inr ([1 / 4], 1 / 16)]
   \<and> (\<exists>w2 s2 v. optimize_restarts env0 w0 self0 (PInt 1) = (w2, s2, None)
         \<and> free_state s2 = [1 / 4]
         \<and> objective_of env0 self0_compiled (free_state s2) = Inr v \<and> v \<le> 1)"
proof -
  have v: "objective_of env0 self0_compiled (free_state self0_compiled) = Inr 1"
    by (simp add: env0_def self0_compiled_fields)
  have k: "Inl KeyboardInterrupt \<notin> set [Inr ([1 / 4 :: real], 1 / 16 :: real)]" by simp
  from optimize_restarts_never_worse [OF prep0 v outcomes0 [symmetric] k]
  obtain w2 s2 v where r: "optimize_restarts env0 w0 self0 (PInt 1) = (w2, s2, None)"
     "objective_of env0 self0_compiled (free_state s2) = Inr v" "v \<le> 1"
    by blast
  have "free_state s2 = [1 / 4]" using r(1) optimize_restarts_example by auto
  then show ?thesis using prep0 v outcomes0 r by blast
qed

text \<open>A fit whose every restart raises: the parameters are those of the entry state.\<close>

lemma optimize_restarts_all_trials_raise:
  "optimize_restarts env_bad_fit w0 self0 (PInt 2) = (w0\<lparr>rng_pos := 2\<rparr>, self0_compiled, None)"
  by (simp add: optimize_restarts_def recompile_if_needed_def self0_compiled_def self0_def gpr0_def
        gpr.defs bo.defs restart_iteration_def restart_try_def env_bad_fit_def env0_def w0_def
        power2_eq_square numeral_2_eq_2)


subsection \<open>Strict comparison in both reducers\<close>

lemma first_minimum_head:
  "list_all (\<lambda>q. snd c \<le> snd q) cs \<Longrightarrow> first_minimum (c # cs) r \<Longrightarrow> r = c"
proof -
  assume a: "list_all (\<lambda>q. snd c \<le> snd q) cs" and b: "first_minimum (c # cs) r"
  have "first_minimum (c # cs) c" using a by simp
  then show "r = c" using b first_minimum_unique by blast
qed

text \<open>
  C5. Both reducers select with strict less-than. Without interruption from the
  keyboard:
  \<^item> the batch \<open>get_suggestion\<close> returns is the first minimum of the successful trials
    in their order: strictly smaller than every successful trial before it, at most
    equal to every one after it; so a first successful trial that no later one beats
    strictly is returned, and with no incumbent (\<open>X\<close> unset) a successful trial is
    taken whatever its value;
  \<^item> the parameters \<open>optimize_restarts\<close> leaves are the first minimum of the entry
    state followed by the successful restarts: the entry state is the first
    candidate, and it is kept when no restart is strictly better.
\<close>

theorem best_of_restarts_strict:
  assumes nb: "0 \<le> n_batch" and r: "options self ''opt_restarts'' = Some (PInt n)"
    and os: "os = trial_outcomes env self n_batch (concat (replicate (nat n_batch) (bounds self)))
                   [0..<nat n] w"
    and nki: "Inl KeyboardInterrupt \<notin> set os"
    and prep: "recompile_if_needed env w_fit s_fit = (w1, s1, None)"
    and v0: "objective_of env s1 (free_state s1) = Inr v0"
    and os': "os' = restart_outcomes env (objective_of env s1) (nat m) w1 s1"
    and nki': "Inl KeyboardInterrupt \<notin> set os'"
  shows "(\<forall>X. snd (get_suggestion env w self n_batch) = Inr X
            \<longrightarrow> (\<exists>y. first_minimum (successes os) (X, y)))
       \<and> (\<forall>c cs. successes os = c # cs \<and> list_all (\<lambda>q. snd c \<le> snd q) cs
            \<longrightarrow> snd (get_suggestion env w self n_batch) = Inr (fst c))
       \<and> (\<forall>X0 y0. update_best \<lparr>X_var = None, y_var = None\<rparr> X0 y0
                      = Inr \<lparr>X_var = Some X0, y_var = Some y0\<rparr>)
       \<and> (\<exists>w2 s2 v. optimize_restarts env w_fit s_fit (PInt m) = (w2, s2, None)
              \<and> first_minimum ((free_state s1, v0) # successes os') (free_state s2, v)
              \<and> (list_all (\<lambda>q. v0 \<le> snd q) (successes os') \<longrightarrow> free_state s2 = free_state s1))"
proof -
  note R = get_suggestion_result(2) [OF nb r os nki]
  have res: "snd (get_suggestion env w self n_batch)
               = (case pick None (successes os) of None \<Rightarrow> Inl AssertionError | Some c \<Rightarrow> Inr (fst c))"
    using R by blast
  have A: "\<forall>X. snd (get_suggestion env w self n_batch) = Inr X
            \<longrightarrow> (\<exists>y. first_minimum (successes os) (X, y))"
  proof (intro allI impI)
    fix X assume X: "snd (get_suggestion env w self n_batch) = Inr X"
    then obtain c where c: "pick None (successes os) = Some c" "fst c = X"
      using res by (auto split: option.splits)
    then have "successes os \<noteq> []" by auto
    then obtain c' where c': "pick None (successes os) = Some c'" "first_minimum (successes os) c'"
      using pick_None_first_minimum by blast
    then have "first_minimum (successes os) (X, snd c)" using c by auto
    then show "\<exists>y. first_minimum (successes os) (X, y)" by blast
  qed
  have B: "\<forall>c cs. successes os = c # cs \<and> list_all (\<lambda>q. snd c \<le> snd q) cs
            \<longrightarrow> snd (get_suggestion env w self n_batch) = Inr (fst c)"
  proof (intro allI impI)
    fix c cs assume h: "successes os = c # cs \<and> list_all (\<lambda>q. snd c \<le> snd q) cs"
    then have "successes os \<noteq> []" by simp
    then obtain c' where c': "pick None (successes os) = Some c'" "first_minimum (successes os) c'"
      using pick_None_first_minimum by blast
    have "c' = c" using first_minimum_head [of c cs c'] h c'(2) by simp
    then show "snd (get_suggestion env w self n_batch) = Inr (fst c)" using res c'(1) by simp
  qed
  have C: "\<forall>X0 y0. update_best \<lparr>X_var = None, y_var = None\<rparr> X0 y0
                      = Inr \<lparr>X_var = Some X0, y_var = Some y0\<rparr>"
    by (simp add: update_best_def)
  from optimize_restarts_result [OF prep v0 os' nki'] obtain w2 s2 v where
    f: "optimize_restarts env w_fit s_fit (PInt m) = (w2, s2, None)"
       "first_minimum ((free_state s1, v0) # successes os') (free_state s2, v)"
    by blast
  have "list_all (\<lambda>q. v0 \<le> snd q) (successes os') \<longrightarrow> free_state s2 = free_state s1"
    using first_minimum_head [of "(free_state s1, v0)" "successes os'" "(free_state s2, v)"] f(2)
    by simp
  then have D: "\<exists>w2 s2 v. optimize_restarts env w_fit s_fit (PInt m) = (w2, s2, None)
              \<and> first_minimum ((free_state s1, v0) # successes os') (free_state s2, v)
              \<and> (list_all (\<lambda>q. v0 \<le> snd q) (successes os') \<longrightarrow> free_state s2 = free_state s1)"
    using f by blast
  show ?thesis using A B C D by blast
qed

lemma self0_compiled_fs: "free_state self0_compiled = [1]" "needs_recompile self0 = True"
  by (simp_all add: self0_compiled_def self0_def gpr0_def gpr.defs bo.defs)

lemma tie_trials:
  "trial_outcomes env_tie self0 1 (concat (replicate (nat 1) (bounds self0))) [0..<nat 2] w_var
     = [Inr (A_half, 0), Inr (A_third, 0)]"
  by (simp add: upt_rec [of 0] upt_rec [of "Suc 0"] self0_fields solve_call_def getitem_def
        env_tie_def env0_def w_var_def random_sample_def uniform_def zeros_def set_column_def
        A_half_def A_third_def)

lemma tie_prep: "recompile_if_needed env_tie w_var self0 = (w_var, self0_compiled, None)"
  by (simp add: recompile_if_needed_def self0_compiled_fs env_tie_def env0_def self0_compiled_def)

lemma tie_restarts:
  "restart_outcomes env_tie (objective_of env_tie self0_compiled) (nat 2) w_var self0_compiled
     = [Inr ([1 / 4], 0), Inr ([1 / 6], 0)]"
  by (simp add: numeral_2_eq_2 restart_try_def env_tie_def env0_def w_var_def)

theorem best_of_restarts_strict_witness:
  "(0::int) \<le> 1 \<and> options self0 ''opt_restarts'' = Some (PInt 2)
   \<and> trial_outcomes env_tie self0 1 (concat (replicate (nat 1) (bounds self0))) [0..<nat 2] w_var
        = [Inr (A_half, 0), Inr (A_third, 0)]
   \<and> recompile_if_needed env_tie w_var self0 = (w_var, self0_compiled, None)
   \<and> objective_of env_tie self0_compiled (free_state self0_compiled) = Inr 0
   \<and> restart_outcomes env_tie (objective_of env_tie self0_compiled) (nat 2) w_var self0_compiled
        = [Inr ([1 / 4], 0), Inr ([1 / 6], 0)]
   \<and> snd (get_suggestion env_tie w_var self0 1) = Inr A_half
   \<and> (\<exists>w2 s2. optimize_restarts env_tie w_var self0 (PInt 2) = (w2, s2, None)
          \<and> free_state s2 = [1])"
proof -
  have a: "(0::int) \<le> 1" by simp
  have b: "options self0 ''opt_restarts'' = Some (PInt 2)" by (simp add: self0_fields)
  have v: "objective_of env_tie self0_compiled (free_state self0_compiled) = Inr 0"
    by (simp add: env_tie_def)
  have k: "Inl KeyboardInterrupt \<notin> set [Inr (A_half, 0 :: real), Inr (A_third, 0)]" by simp
  have k': "Inl KeyboardInterrupt \<notin> set [Inr ([1 / 4 :: real], 0 :: real), Inr ([1 / 6], 0)]" by simp
  note T = best_of_restarts_strict [OF a b tie_trials [symmetric] k tie_prep v tie_restarts [symmetric] k']
  have g: "snd (get_suggestion env_tie w_var self0 1) = Inr A_half"
    using T by simp
  have "\<exists>w2 s2. optimize_restarts env_tie w_var self0 (PInt 2) = (w2, s2, None)
          \<and> free_state s2 = [1]"
    using T self0_compiled_fs(1) by auto
  then show ?thesis using a b tie_trials tie_prep v tie_restarts g by blast
qed


subsection \<open>The loop of \<^verbatim>\<open>bayesian_optimization\<close>: what an iteration keeps\<close>

lemma random_sample_rows:
  assumes "random_sample w bnds k = (w', Inr A)"
  shows "nrows A = nat k"
proof -
  have k: "0 \<le> k" using assms by (auto simp: random_sample_def split: if_splits)
  define Z where "Z = zeros (nat k) (length bnds)"
  have z1: "length (rows Z) = nat k" by (simp add: Z_def zeros_def)
  have z2: "\<forall>r < nat k. length (rows Z ! r) = length bnds" by (simp add: Z_def zeros_def)
  have z3: "0 + length bnds \<le> length bnds" by simp
  note F = fill_columns_spec [OF z1 z2 z3, of w]
  have "A = snd (fill_columns w bnds 0 (nat k) Z)"
    using assms k by (auto simp: random_sample_def Z_def split: prod.splits)
  then show ?thesis using F by (simp add: nrows_def)
qed

lemma keeps_batch_sizeD:
  "keeps_batch_size m \<Longrightarrow> m w s = (w', s', e) \<Longrightarrow> batch_size s' = batch_size s"
  unfolding keeps_batch_size_def by (metis fst_conv snd_conv)

lemma restart_try_batch_size:
  assumes "keeps_batch_size (randomize env)" "keeps_batch_size (optimize env)"
    and "restart_try env obj w s x = (w', s', x', r)"
  shows "batch_size s' = batch_size s"
proof -
  obtain w1 s1 e1 where a: "randomize env w s = (w1, s1, e1)" by (cases "randomize env w s") auto
  obtain w2 s2 e2 where b: "optimize env w1 s1 = (w2, s2, e2)" by (cases "optimize env w1 s1") auto
  have 1: "batch_size s1 = batch_size s" using keeps_batch_sizeD [OF assms(1) a] .
  have 2: "batch_size s2 = batch_size s1" using keeps_batch_sizeD [OF assms(2) b] .
  show ?thesis using assms(3) a b 1 2 by (auto simp: restart_try_def split: option.splits)
qed

lemma restart_iteration_batch_size:
  assumes "keeps_batch_size (randomize env)" "keeps_batch_size (optimize env)"
    and "restart_iteration env obj (w, s, L) = ((w', s', L'), r)"
  shows "batch_size s' = batch_size s"
proof -
  obtain w1 s1 x1 r1 where t: "restart_try env obj w s (x_var L) = (w1, s1, x1, r1)"
    by (cases "restart_try env obj w s (x_var L)") auto
  have "batch_size s1 = batch_size s" using restart_try_batch_size [OF assms(1,2) t] .
  moreover have "s' = s1" using assms(3) t
    by (auto simp: restart_iteration_def Let_def split: if_splits option.splits)
  ultimately show ?thesis by simp
qed

lemma restart_loop_batch_size:
  assumes "keeps_batch_size (randomize env)" "keeps_batch_size (optimize env)"
    and "restart_loop env obj n (w, s, L) = ((w', s', L'), r)"
  shows "batch_size s' = batch_size s"
  using assms(3)
proof (induction n arbitrary: w s L)
  case 0
  then show ?case by simp
next
  case (Suc n)
  obtain w1 s1 L1 r1 where it: "restart_iteration env obj (w, s, L) = ((w1, s1, L1), r1)"
    by (cases "restart_iteration env obj (w, s, L)") auto
  have b: "batch_size s1 = batch_size s" using restart_iteration_batch_size [OF assms(1,2) it] .
  show ?case
  proof (cases r1)
    case None
    then have "restart_loop env obj n (w1, s1, L1) = ((w', s', L'), r)" using Suc.prems it by simp
    from Suc.IH [OF this] show ?thesis using b by simp
  next
    case (Some e)
    then show ?thesis using Suc.prems it b by simp
  qed
qed

lemma optimize_restarts_batch_size:
  assumes "keeps_batch_size (compile env)" "keeps_batch_size (randomize env)"
    "keeps_batch_size (optimize env)"
    and "optimize_restarts env w s rs = (w', s', r)"
  shows "batch_size s' = batch_size s"
proof -
  obtain w1 s1 e1 where p: "recompile_if_needed env w s = (w1, s1, e1)"
    by (cases "recompile_if_needed env w s") auto
  have b1: "batch_size s1 = batch_size s"
    using p keeps_batch_sizeD [OF assms(1)]
    by (auto simp: recompile_if_needed_def split: if_splits)
  show ?thesis
  proof (cases "\<exists>v n. e1 = None \<and> objective_of env s1 (free_state s1) = Inr v \<and> as_index rs = Inr n")
    case False
    then have "s' = s1" using assms(4) p
      by (auto simp: optimize_restarts_def split: option.splits sum.splits)
    then show ?thesis using b1 by simp
  next
    case True
    then obtain v n where v: "objective_of env s1 (free_state s1) = Inr v" "as_index rs = Inr n" "e1 = None"
      by blast
    obtain w2 s2 L2 r2 where l: "restart_loop env (objective_of env s1) (nat n)
        (w1, s1, \<lparr>par_min = free_state s1, val_min = Fin v, x_var = None\<rparr>) = ((w2, s2, L2), r2)"
      by (cases "restart_loop env (objective_of env s1) (nat n)
        (w1, s1, \<lparr>par_min = free_state s1, val_min = Fin v, x_var = None\<rparr>)") auto
    have b2: "batch_size s2 = batch_size s1" using restart_loop_batch_size [OF assms(2,3) l] .
    have "batch_size s' = batch_size s2" using assms(4) p v l
      by (auto simp: optimize_restarts_def split: option.splits)
    then show ?thesis using b1 b2 by simp
  qed
qed

lemma draw_samples_batch_size:
  "draw_samples env w s = (w', s', r) \<Longrightarrow> batch_size s' = batch_size s"
  by (auto simp: draw_samples_def split: sum.splits bool.splits prod.splits)


lemma solver_keeps_rowsD:
  "solver_keeps_rows env \<Longrightarrow> solve_call env w s A bt = (w', Inr (B, y)) \<Longrightarrow> nrows B = nrows A"
  unfolding solver_keeps_rows_def solve_call_def
  by (auto split: sum.splits) blast

lemma update_best_rows:
  assumes "update_best L X0 y0 = Inr L'" and "X_var L' = Some B"
  shows "B = X0 \<or> X_var L = Some B"
  using assms by (auto simp: update_best_def split: option.splits if_splits)

lemma suggestion_iteration_rows:
  assumes sk: "solver_keeps_rows env"
    and inv: "\<forall>B. X_var L = Some B \<longrightarrow> nrows B = nat b"
    and it: "suggestion_iteration env s b bt j (w, L) = ((w', L'), r)"
  shows "\<forall>B. X_var L' = Some B \<longrightarrow> nrows B = nat b"
proof (cases "random_sample w (bounds s) b")
  case (Pair w1 ra)
  show ?thesis
  proof (cases ra)
    case (Inl e)
    then have "L' = L" using it Pair by (simp add: suggestion_iteration_def)
    then show ?thesis using inv by simp
  next
    case (Inr A)
    have nA: "nrows A = nat b" using Pair Inr random_sample_rows by blast
    obtain w2 rc where sc: "solve_call env w1 s A bt = (w2, rc)" by (cases "solve_call env w1 s A bt")
    show ?thesis
    proof (cases rc)
      case (Inl e)
      then have "L' = L" using it Pair \<open>ra = Inr A\<close> sc
        by (auto simp: suggestion_iteration_def suggestion_try_def split: if_splits)
      then show ?thesis using inv by simp
    next
      case (Inr c)
      obtain X0 y0 where c: "c = (X0, y0)" by (cases c)
      have n0: "nrows X0 = nat b" using solver_keeps_rowsD [OF sk] sc Inr c nA by simp
      show ?thesis
      proof (cases "update_best L X0 y0")
        case (Inl e)
        then have "L' = L" using it Pair \<open>ra = Inr A\<close> sc \<open>rc = Inr c\<close> c
          by (auto simp: suggestion_iteration_def suggestion_try_def split: if_splits)
        then show ?thesis using inv by simp
      next
        case (Inr L1)
        then have "L' = L1" using it Pair \<open>ra = Inr A\<close> sc \<open>rc = Inr c\<close> c
          by (auto simp: suggestion_iteration_def suggestion_try_def)
        then show ?thesis using update_best_rows [OF Inr] inv n0 by auto
      qed
    qed
  qed
qed

lemma suggestion_loop_rows:
  assumes sk: "solver_keeps_rows env"
    and inv: "\<forall>B. X_var L = Some B \<longrightarrow> nrows B = nat b"
    and l: "suggestion_loop env s b bt js (w, L) = ((w', L'), r)"
  shows "\<forall>B. X_var L' = Some B \<longrightarrow> nrows B = nat b"
  using inv l
proof (induction js arbitrary: w L)
  case Nil
  then show ?case by simp
next
  case (Cons j js)
  obtain w1 L1 r1 where it: "suggestion_iteration env s b bt j (w, L) = ((w1, L1), r1)"
    by (cases "suggestion_iteration env s b bt j (w, L)") auto
  have i1: "\<forall>B. X_var L1 = Some B \<longrightarrow> nrows B = nat b"
    using suggestion_iteration_rows [OF sk Cons.prems(1) it] .
  show ?case
  proof (cases r1)
    case None
    then have "suggestion_loop env s b bt js (w1, L1) = ((w', L'), r)" using Cons.prems(2) it by simp
    from Cons.IH [OF i1 this] show ?thesis .
  next
    case (Some e)
    then have "L' = L1" using Cons.prems(2) it by simp
    then show ?thesis using i1 by simp
  qed
qed

lemma get_suggestion_rows:
  assumes sk: "solver_keeps_rows env" and g: "get_suggestion env w s b = (w', Inr B)"
  shows "nrows B = nat b"
proof -
  obtain bt where bt: "np_tile (bounds s) b = Inr bt"
    using g by (cases "np_tile (bounds s) b") (auto simp: get_suggestion_def)
  obtain n where n: "bind (getitem (options s) ''opt_restarts'') as_index = Inr n"
    using g bt by (cases "bind (getitem (options s) ''opt_restarts'') as_index")
      (auto simp: get_suggestion_def)
  obtain w1 L1 r1 where l: "suggestion_loop env s b bt [0..<nat n] (w, \<lparr>X_var = None, y_var = None\<rparr>)
      = ((w1, L1), r1)"
    by (cases "suggestion_loop env s b bt [0..<nat n] (w, \<lparr>X_var = None, y_var = None\<rparr>)") auto
  have i: "\<forall>B. X_var L1 = Some B \<longrightarrow> nrows B = nat b"
    using suggestion_loop_rows [OF sk _ l] by simp
  have "X_var L1 = Some B" using g bt n l
    by (auto simp: get_suggestion_def split: option.splits)
  then show ?thesis using i by simp
qed


lemma concatenate_rows: "concatenate A B = Inr C \<Longrightarrow> rows C = rows A @ rows B"
  by (auto simp: concatenate_def split: if_splits)

lemma append_and_update_rows:
  assumes "append_and_update env s X y Xn yn = Inr (s', X', y')"
  shows "rows X' = rows X @ rows Xn \<and> rows y' = rows y @ rows yn \<and> batch_size s' = batch_size s"
proof -
  obtain XA where xa: "concatenate X Xn = Inr XA"
    using assms by (cases "concatenate X Xn") (auto simp: append_and_update_def bind_def)
  obtain yA where ya: "concatenate y yn = Inr yA"
    using assms xa by (cases "concatenate y yn") (auto simp: append_and_update_def bind_def)
  have "X' = XA \<and> y' = yA \<and> batch_size s' = batch_size s"
    using assms xa ya by (auto simp: append_and_update_def bind_def split: sum.splits)
  then show ?thesis using concatenate_rows [OF xa] concatenate_rows [OF ya] by simp
qed

lemma propose_and_evaluate_rows:
  assumes sk: "solver_keeps_rows env" and ok: "objective_keeps_rows ob"
    and b: "as_index (batch_size s) = Inr b"
    and p: "propose_and_evaluate env ob w s = (w', Inr (Xn, yn))"
  shows "nrows Xn = nat b \<and> nrows yn = nat b"
proof -
  obtain w1 where g: "get_suggestion env w s b = (w1, Inr Xn)"
    using p b by (auto simp: propose_and_evaluate_def split: prod.splits sum.splits)
  have f: "\<exists>w2. obj_f ob w1 Xn = (w2, Inr yn)"
    using p b g by (auto simp: propose_and_evaluate_def split: prod.splits sum.splits)
  have 1: "nrows Xn = nat b" using get_suggestion_rows [OF sk g] .
  have 2: "nrows yn = nrows Xn" using ok f unfolding objective_keeps_rows_def by blast
  show ?thesis using 1 2 by simp
qed

lemma bo_iteration_rows:
  assumes fr: "keeps_batch_size (compile env)" "keeps_batch_size (randomize env)"
      "keeps_batch_size (optimize env)"
    and sk: "solver_keeps_rows env" and ok: "objective_keeps_rows ob"
    and b: "as_index (batch_size s) = Inr b"
    and it: "bo_iteration env ob (w, s, X, y) = ((w', s', X', y'), None)"
  shows "batch_size s' = batch_size s
       \<and> (\<exists>Xn yn. rows X' = rows X @ rows Xn \<and> rows y' = rows y @ rows yn
             \<and> nrows Xn = nat b \<and> nrows yn = nat b)"
proof -
  obtain r where r: "getitem (options s) ''model_restarts'' = Inr r"
    using it by (cases "getitem (options s) ''model_restarts''") (auto simp: bo_iteration_def)
  obtain w1 s1 e1 where o: "optimize_restarts env w s r = (w1, s1, e1)"
    by (cases "optimize_restarts env w s r") auto
  have e1: "e1 = None" using it r o by (cases e1) (auto simp: bo_iteration_def)
  obtain w2 s2 e2 where d: "draw_samples env w1 s1 = (w2, s2, e2)"
    by (cases "draw_samples env w1 s1") auto
  have e2: "e2 = None" using it r o e1 d by (cases e2) (auto simp: bo_iteration_def)
  obtain w3 pe where p: "propose_and_evaluate env ob w2 s2 = (w3, pe)"
    by (cases "propose_and_evaluate env ob w2 s2")
  obtain Xn yn where pe: "pe = Inr (Xn, yn)"
    using it r o e1 d e2 p by (cases pe) (auto simp: bo_iteration_def)
  obtain s3 where a: "append_and_update env s2 X y Xn yn = Inr (s3, X', y')" and s3: "s' = s3"
    using it r o e1 d e2 p pe
    by (cases "append_and_update env s2 X y Xn yn") (auto simp: bo_iteration_def)
  have b1: "batch_size s1 = batch_size s" using optimize_restarts_batch_size [OF fr o] .
  have b2: "batch_size s2 = batch_size s1" using draw_samples_batch_size [OF d] .
  have bb: "as_index (batch_size s2) = Inr b" using b b1 b2 by simp
  note R = propose_and_evaluate_rows [OF sk ok bb p [unfolded pe]]
  note A = append_and_update_rows [OF a]
  show ?thesis using R A b1 b2 s3 by auto
qed

lemma bo_loop_rows:
  assumes fr: "keeps_batch_size (compile env)" "keeps_batch_size (randomize env)"
      "keeps_batch_size (optimize env)"
    and sk: "solver_keeps_rows env" and ok: "objective_keeps_rows ob"
    and b: "as_index (batch_size s) = Inr b"
    and l: "bo_loop env ob n (w, s, X, y) = ((w', s', X', y'), None)"
  shows "batch_size s' = batch_size s
       \<and> nrows X' = nrows X + n * nat b \<and> nrows y' = nrows y + n * nat b
       \<and> prefix (rows X) (rows X') \<and> prefix (rows y) (rows y')"
  using b l
proof (induction n arbitrary: w s X y)
  case 0
  then show ?case by simp
next
  case (Suc n)
  obtain w1 s1 X1 y1 e1 where it: "bo_iteration env ob (w, s, X, y) = ((w1, s1, X1, y1), e1)"
    by (cases "bo_iteration env ob (w, s, X, y)") auto
  have e1: "e1 = None" using Suc.prems(2) it by (cases e1) auto
  note I = bo_iteration_rows [OF fr sk ok Suc.prems(1) it [unfolded e1]]
  have b1: "as_index (batch_size s1) = Inr b" using I Suc.prems(1) by simp
  have "bo_loop env ob n (w1, s1, X1, y1) = ((w', s', X', y'), None)"
    using Suc.prems(2) it e1 by simp
  note H = Suc.IH [OF b1 this]
  obtain Xn yn where n: "rows X1 = rows X @ rows Xn" "rows y1 = rows y @ rows yn"
      "nrows Xn = nat b" "nrows yn = nat b"
    using I by blast
  have p1: "prefix (rows X) (rows X1)" "prefix (rows y) (rows y1)" using n by simp_all
  have c1: "nrows X1 = nrows X + nat b" "nrows y1 = nrows y + nat b"
    using n by (simp_all add: nrows_def)
  show ?case using H I p1 c1 by (auto intro: prefix_order.trans)
qed

lemma bo_loop_split:
  "bo_loop env ob (k + m) st =
     (case bo_loop env ob k st of
        (st1, Some e) \<Rightarrow> (st1, Some e)
      | (st1, None) \<Rightarrow> bo_loop env ob m st1)"
proof (induction k arbitrary: st)
  case 0
  show ?case by simp
next
  case (Suc k)
  show ?case
  proof (cases "bo_iteration env ob st")
    case (Pair st1 e1)
    then show ?thesis using Suc by (cases e1) simp_all
  qed
qed

lemma initial_design_rows:
  assumes "initial_design env w self = (w1, Inr (ob, s1, X0, y0))"
  shows "options self ''objective'' = Some (PObjective ob)
       \<and> batch_size s1 = batch_size self \<and> iterations s1 = iterations self
       \<and> (\<exists>k. as_index (initial_size self) = Inr k \<and> nrows X0 = nat k)
       \<and> (objective_keeps_rows ob \<longrightarrow> nrows y0 = nrows X0)"
proof -
  obtain ov where ov: "options self ''objective'' = Some ov"
    using assms by (cases "options self ''objective''") (auto simp: initial_design_def getitem_def)
  obtain k where k: "as_index (initial_size self) = Inr k"
    using assms ov by (cases "as_index (initial_size self)") (auto simp: initial_design_def getitem_def)
  obtain w' ra where rs: "random_sample w (bounds self) k = (w', ra)"
    by (cases "random_sample w (bounds self) k")
  obtain A where ra: "ra = Inr A"
    using assms ov k rs by (cases ra) (auto simp: initial_design_def getitem_def)
  have nA: "nrows A = nat k" using rs ra random_sample_rows by blast
  obtain ob' where ob': "ov = PObjective ob'"
    using assms ov k rs ra by (cases ov) (auto simp: initial_design_def getitem_def)
  obtain w2 rf where f: "obj_f ob' w' A = (w2, rf)" by (cases "obj_f ob' w' A")
  obtain B where rf: "rf = Inr B"
    using assms ov k rs ra ob' f by (cases rf) (auto simp: initial_design_def getitem_def)
  have e: "ob = ob' \<and> X0 = A \<and> y0 = B \<and> batch_size s1 = batch_size self
             \<and> iterations s1 = iterations self"
    using assms ov k rs ra ob' f rf
    by (auto simp: initial_design_def getitem_def bind_def split: sum.splits)
  have "objective_keeps_rows ob \<longrightarrow> nrows y0 = nrows X0"
    using e f rf unfolding objective_keeps_rows_def by blast
  then show ?thesis using e ov ob' k nA by auto
qed


subsection \<open>The dataset is append-only\<close>

text \<open>The scenario of the specification, after the seeding: three initial points, two
  iterations of one point.\<close>

lemma run_loop_example: "run_loop env0 w0 self0 = (w0\<lparr>rng_pos := 9\<rparr>, Inr (X5, y5))"
  by (simp add: run_loop_def initial_design_def numeral_2_eq_2 numeral_3_eq_3 bo_iteration_def
        optimize_restarts_def recompile_if_needed_def restart_iteration_def restart_try_def
        draw_samples_def propose_and_evaluate_def get_suggestion_def np_tile_def bind_def
        suggestion_iteration_def suggestion_try_def solve_call_def update_best_def
        append_and_update_def concatenate_def normalize_call_def normalize_def alloc_def
        column0_def slice01_def getitem_def store_write_def set_column_def
        random_sample_def uniform_def zeros_def upt_rec [of 0] upt_rec [of "Suc 0"]
        upt_rec [of "Suc (Suc 0)"]
        self0_def opts0_def gpr0_def gpr.defs bo.defs ob0_def env0_def w0_def X5_def y5_def
        power2_eq_square)


text \<open>
  C3. Take the part of the method after the seeding (lines 52 to 92), with
  collaborators that keep their contracts, initial size \<open>s\<close>, batch size \<open>b\<close> and \<open>n\<close>
  iterations. If it returns \<open>(X_all, y_all)\<close>, then \<open>X_all\<close> has \<open>s + n * b\<close> rows and
  \<open>y_all\<close> as many; and for every \<open>k \<le> n\<close> the loop reaches the end of iteration \<open>k\<close>
  with arrays \<open>X\<^sub>k\<close>, \<open>y\<^sub>k\<close> of \<open>s + k * b\<close> rows each, whose rows are a prefix of the rows
  of \<open>X_all\<close> and \<open>y_all\<close>: rows are only appended, never removed or reordered.
\<close>

theorem bo_loop_append_only:
  assumes fr: "keeps_batch_size (compile env)" "keeps_batch_size (randomize env)"
      "keeps_batch_size (optimize env)"
    and sk: "solver_keeps_rows env" and ok: "objective_keeps_rows ob"
    and obj: "options self ''objective'' = Some (PObjective ob)"
    and sz: "as_index (initial_size self) = Inr s"
    and b: "as_index (batch_size self) = Inr b"
    and n: "as_index (iterations self) = Inr n"
    and run: "run_loop env w self = (w', Inr (X_all, y_all))"
  shows "nrows X_all = nat s + nat n * nat b \<and> nrows y_all = nrows X_all
       \<and> (\<exists>w1 s1 X0 y0. initial_design env w self = (w1, Inr (ob, s1, X0, y0))
            \<and> (\<forall>k \<le> nat n. \<exists>wk sk Xk yk.
                   bo_loop env ob k (w1, s1, X0, y0) = ((wk, sk, Xk, yk), None)
                 \<and> nrows Xk = nat s + k * nat b \<and> nrows yk = nrows Xk
                 \<and> prefix (rows Xk) (rows X_all) \<and> prefix (rows yk) (rows y_all)))"
proof -
  obtain w1 di where di: "initial_design env w self = (w1, di)" by (cases "initial_design env w self")
  obtain ob' s1 X0 y0 where d: "di = Inr (ob', s1, X0, y0)"
    using run di by (cases di) (auto simp: run_loop_def)
  note I = initial_design_rows [OF di [unfolded d]]
  have ob': "ob' = ob" using I obj by simp
  have i0: "initial_design env w self = (w1, Inr (ob, s1, X0, y0))" using di d ob' by simp
  have b1: "as_index (batch_size s1) = Inr b" using I b by simp
  have n1: "as_index (iterations s1) = Inr n" using I n by simp
  have x0: "nrows X0 = nat s" using I sz by auto
  have y0: "nrows y0 = nat s" using I ok ob' x0 by simp
  obtain s2 where fin: "bo_loop env ob (nat n) (w1, s1, X0, y0) = ((w', s2, X_all, y_all), None)"
    using run i0 n1 by (auto simp: run_loop_def split: prod.splits option.splits)
  note F = bo_loop_rows [OF fr sk ok b1 fin]
  have steps: "\<forall>k \<le> nat n. \<exists>wk sk Xk yk.
                   bo_loop env ob k (w1, s1, X0, y0) = ((wk, sk, Xk, yk), None)
                 \<and> nrows Xk = nat s + k * nat b \<and> nrows yk = nrows Xk
                 \<and> prefix (rows Xk) (rows X_all) \<and> prefix (rows yk) (rows y_all)"
  proof (intro allI impI)
    fix k assume k: "k \<le> nat n"
    obtain wk sk Xk yk ek where lk: "bo_loop env ob k (w1, s1, X0, y0) = ((wk, sk, Xk, yk), ek)"
      by (cases "bo_loop env ob k (w1, s1, X0, y0)") auto
    have sp: "bo_loop env ob (k + (nat n - k)) (w1, s1, X0, y0) =
               (case bo_loop env ob k (w1, s1, X0, y0) of
                  (st1, Some e) \<Rightarrow> (st1, Some e)
                | (st1, None) \<Rightarrow> bo_loop env ob (nat n - k) st1)"
      by (rule bo_loop_split)
    have kn: "k + (nat n - k) = nat n" using k by simp
    have ek: "ek = None" using sp fin lk unfolding kn by (cases ek) auto
    have rest: "bo_loop env ob (nat n - k) (wk, sk, Xk, yk) = ((w', s2, X_all, y_all), None)"
      using sp fin lk ek unfolding kn by simp
    note A = bo_loop_rows [OF fr sk ok b1 lk [unfolded ek]]
    have bk: "as_index (batch_size sk) = Inr b" using A b1 by simp
    note B = bo_loop_rows [OF fr sk ok bk rest]
    show "\<exists>wk sk Xk yk.
                   bo_loop env ob k (w1, s1, X0, y0) = ((wk, sk, Xk, yk), None)
                 \<and> nrows Xk = nat s + k * nat b \<and> nrows yk = nrows Xk
                 \<and> prefix (rows Xk) (rows X_all) \<and> prefix (rows yk) (rows y_all)"
      using lk ek A B x0 y0 by auto
  qed
  have "nrows X_all = nat s + nat n * nat b \<and> nrows y_all = nrows X_all"
    using F x0 y0 by simp
  then show ?thesis using i0 steps by blast
qed

lemma env0_contracts:
  "keeps_batch_size (compile env0)" "keeps_batch_size (randomize env0)"
  "keeps_batch_size (optimize env0)" "solver_keeps_rows env0" "objective_keeps_rows ob0"
  by (simp_all add: keeps_batch_size_def solver_keeps_rows_def objective_keeps_rows_def env0_def
        ob0_def nrows_def)

lemma self0_sizes: "options self0 ''objective'' = Some (PObjective ob0)"
  "as_index (initial_size self0) = Inr 3" "as_index (batch_size self0) = Inr 1"
  "as_index (iterations self0) = Inr 2"
  by (simp_all add: self0_def opts0_def gpr.defs bo.defs)

theorem bo_loop_append_only_witness:
  "keeps_batch_size (compile env0) \<and> keeps_batch_size (randomize env0)
   \<and> keeps_batch_size (optimize env0) \<and> solver_keeps_rows env0 \<and> objective_keeps_rows ob0
   \<and> options self0 ''objective'' = Some (PObjective ob0)
   \<and> as_index (initial_size self0) = Inr 3 \<and> as_index (batch_size self0) = Inr 1
   \<and> as_index (iterations self0) = Inr 2
   \<and> run_loop env0 w0 self0 = (w0\<lparr>rng_pos := 9\<rparr>, Inr (X5, y5))
   \<and> nrows X5 = 5 \<and> nrows y5 = 5"
proof -
  note T = bo_loop_append_only [OF env0_contracts self0_sizes run_loop_example]
  have "nrows X5 = 5 \<and> nrows y5 = 5" using T by simp
  then show ?thesis using env0_contracts self0_sizes run_loop_example by blast
qed

text \<open>When the three seeding calls return, the method is the part after the seeding.\<close>

lemma bayesian_optimization_after_seeding:
  assumes "tf_set_random_seed env w sd = (w1, None)" and "py_call env w1 sd sd = (w2, None)"
    and "random_seed env w2 sd = (w3, None)"
  shows "bayesian_optimization env w self sd = run_loop env w3 (self\<lparr>seed := Some sd\<rparr>)"
  using assms by (simp add: bayesian_optimization_def)

end
